(* ===== verification/Taint_Base.thy ===== *)
theory Taint_Base
  imports Main
begin

text \<open>
  Prelude of the development: the values every component of \<^verbatim>\<open>src/taint.py\<close>
  shares (RGB colours, screen points, the constants \<open>SIZE\<close>, \<open>N\<close> and the window
  size), the part of \<^verbatim>\<open>pygame.Rect\<close> the program relies on (a rectangle and its
  \<open>collidepoint\<close> test), Python's \<open>range\<close> with a positive step, the error values
  of the model, and the generic list lemmas the component theories share.
\<close>

named_theorems layout_simps \<open>geometry of the canvas grid and of the palette layout\<close>

section \<open>Colours, points and constants\<close>

text \<open>A colour is the RGB triple of the source (\<open>class COLORS\<close>), a point a pair of
  Python ints (screen or surface coordinates).\<close>

type_synonym color = "int \<times> int \<times> int"
type_synonym point = "int \<times> int"

definition BLACK :: color where "BLACK = (0, 0, 0)"
definition WHITE :: color where "WHITE = (255, 255, 255)"
definition RED :: color where "RED = (255, 0, 0)"
definition GREEN :: color where "GREEN = (0, 255, 0)"
definition BLUE :: color where "BLUE = (0, 0, 255)"

lemmas colors_defs = BLACK_def WHITE_def RED_def GREEN_def BLUE_def

definition window_width :: int where "window_width = 1024"
definition window_height :: int where "window_height = 576"
definition SIZE :: int where "SIZE = 32"
definition N :: nat where "N = 15"

section \<open>Rectangles (pygame.Rect)\<close>

text \<open>
  \<^verbatim>\<open>pygame.Rect(x, y, w, h)\<close>. The subclasses of the source (\<open>Button\<close>, \<open>Block\<close>)
  extend it; in the model they extend this record, so \<open>collidepoint\<close> applies to every
  extension. \<open>collidepoint\<close> is pygame's test: the left and top edges belong to the
  rectangle, the right and bottom ones do not.
\<close>

record rect =
  rx :: int
  ry :: int
  rw :: int
  rh :: int

definition Rect :: "int \<Rightarrow> int \<Rightarrow> int \<Rightarrow> int \<Rightarrow> rect" where
  "Rect x y w h = \<lparr>rx = x, ry = y, rw = w, rh = h\<rparr>"

fun collidepoint :: "'a rect_scheme \<Rightarrow> point \<Rightarrow> bool" where
  "collidepoint r (px, py) =
     (rx r \<le> px \<and> px < rx r + rw r \<and> ry r \<le> py \<and> py < ry r + rh r)"

text \<open>The rectangle part of an extension (what \<open>collidepoint\<close> reads).\<close>

definition rect_of :: "'a rect_scheme \<Rightarrow> rect" where
  "rect_of r = \<lparr>rx = rx r, ry = ry r, rw = rw r, rh = rh r\<rparr>"

section \<open>Python's range with a positive step\<close>

text \<open>
  \<^verbatim>\<open>range(start, stop, step)\<close> for \<open>step > 0\<close>, the only form the source uses
  (\<open>range(0, self.get_width(), SIZE)\<close>). The recursion is not structural: the
  distance \<open>stop - start\<close> shrinks.
\<close>

function py_range :: "int \<Rightarrow> int \<Rightarrow> int \<Rightarrow> int list" where
  "py_range start stop step =
     (if 0 < step \<and> start < stop then start # py_range (start + step) stop step else [])"
  by pat_completeness auto
termination
  by (relation "measure (\<lambda>(start, stop, step). nat (stop - start))") auto

section \<open>Errors\<close>

text \<open>
  The ways a step of the program can fail to return normally: Python's
  \<open>IndexError\<close> (\<open>self.blocks[self.selected]\<close> out of range),
  \<open>AttributeError\<close> (\<open>self.canvas\<close> read before \<open>bind_canvas\<close>), and
  \<open>Blocked\<close>: a modal dialog that the user never answers, so the call never returns.
\<close>

datatype error = IndexError | AttributeError | Blocked

section \<open>Basic facts\<close>

lemma SIZE_pos [simp]: "0 < SIZE"
  by (simp add: SIZE_def)

lemma N_pos [simp]: "0 < N"
  by (simp add: N_def)

lemma collidepoint_rect_of: "collidepoint (rect_of r) p = collidepoint r p"
  by (cases p) (simp add: rect_of_def)

lemma collidepoint_cong:
  "rect_of a = rect_of b \<Longrightarrow> collidepoint a p = collidepoint b p"
  by (metis collidepoint_rect_of)

declare py_range.simps [simp del]

lemma py_range_mult:
  assumes "0 < s"
  shows "py_range (int k * s) (int n * s) s = map (\<lambda>i. int i * s) [k..<n]"
proof (induction "n - k" arbitrary: k)
  case 0
  then have "int n * s \<le> int k * s"
    using assms by (simp add: mult_right_mono)
  with "0" show ?case by (simp add: py_range.simps)
next
  case (Suc m)
  then have lt: "k < n" by simp
  with assms have less: "int k * s < int n * s" by simp
  have "m = n - Suc k" using Suc.hyps(2) by simp
  then have IH: "py_range (int (Suc k) * s) (int n * s) s = map (\<lambda>i. int i * s) [Suc k..<n]"
    by (rule Suc.hyps(1))
  have "int (Suc k) * s = int k * s + s"
    by (simp add: algebra_simps)
  with IH have "py_range (int k * s + s) (int n * s) s = map (\<lambda>i. int i * s) [Suc k..<n]"
    by simp
  then show ?case
    using assms lt less by (simp add: py_range.simps [of "int k * s"] upt_conv_Cons)
qed

corollary py_range_zero:
  "0 < s \<Longrightarrow> py_range 0 (int n * s) s = map (\<lambda>i. int i * s) [0..<n]"
  using py_range_mult [of s 0 n] by simp

lemma py_range_mem:
  assumes "0 < s" and "0 \<le> v" and "v < int n * s"
  shows "v \<in> set (py_range 0 (int n * s) s) \<longleftrightarrow> v mod s = 0"
proof
  assume "v \<in> set (py_range 0 (int n * s) s)"
  then show "v mod s = 0" using assms by (auto simp: py_range_zero)
next
  assume m: "v mod s = 0"
  then obtain q where q: "v = q * s" by (metis mult.commute mod_eq_0_iff_dvd dvd_def)
  with assms have "0 \<le> q" by (simp add: zero_le_mult_iff)
  moreover from q assms have "q < int n" by simp
  ultimately have "nat q \<in> set [0..<n]" and "v = int (nat q) * s"
    using q by simp_all
  then show "v \<in> set (py_range 0 (int n * s) s)"
    unfolding py_range_zero [OF assms(1)] set_map by blast
qed

section \<open>Shared list lemmas\<close>

lemma length_concat_map_const:
  "(\<And>x. x \<in> set xs \<Longrightarrow> length (f x) = m) \<Longrightarrow> length (concat (map f xs)) = length xs * m"
  by (induction xs) auto

lemma nth_concat_map_const:
  assumes "\<And>x. x \<in> set xs \<Longrightarrow> length (f x) = m" and "j < length xs * m"
  shows "concat (map f xs) ! j = f (xs ! (j div m)) ! (j mod m)"
  using assms
proof (induction xs arbitrary: j)
  case Nil
  then show ?case by simp
next
  case (Cons x xs)
  have lx: "length (f x) = m" using Cons.prems(1) by simp
  show ?case
  proof (cases "j < m")
    case True
    with lx show ?thesis by (simp add: nth_append)
  next
    case False
    then have m0: "0 < m" using Cons.prems(2) by (cases m) auto
    have "j - m < length xs * m" using Cons.prems(2) False by simp
    then have "concat (map f xs) ! (j - m) = f (xs ! ((j - m) div m)) ! ((j - m) mod m)"
      using Cons.IH Cons.prems(1) by simp
    moreover have "j div m = Suc ((j - m) div m)" using m0 False by (simp add: le_div_geq)
    moreover have "j mod m = (j - m) mod m" using False by (simp add: le_mod_geq)
    ultimately show ?thesis using lx False by (simp add: nth_append)
  qed
qed

text \<open>A first-match search over a list whose elements match at exactly one index.\<close>

lemma find_unique_index:
  assumes "k < length xs" and "\<And>j. j < length xs \<Longrightarrow> P (xs ! j) \<longleftrightarrow> j = k"
  shows "find P xs = Some (xs ! k)"
  using assms by (auto simp: find_Some_iff)

lemma find_rev_unique_index:
  assumes "k < length xs" and "\<And>j. j < length xs \<Longrightarrow> P (xs ! j) \<longleftrightarrow> j = k"
  shows "find P (rev xs) = Some (xs ! k)"
proof -
  have "rev xs ! (length xs - Suc k) = xs ! k"
    using assms(1) by (simp add: rev_nth)
  moreover have "P (rev xs ! j) \<longleftrightarrow> j = length xs - Suc k" if "j < length xs" for j
    using that assms by (auto simp: rev_nth)
  ultimately show ?thesis
    using assms(1) find_unique_index [of "length xs - Suc k" "rev xs" P] by simp
qed

lemma find_append:
  "find P (xs @ ys) = (case find P xs of None \<Rightarrow> find P ys | Some x \<Rightarrow> Some x)"
  by (induction xs) auto

lemma find_SomeD: "find P xs = Some x \<Longrightarrow> x \<in> set xs \<and> P x"
  by (induction xs) (auto split: if_splits)

lemma fold_snoc_map: "fold (\<lambda>y bs. bs @ [g y]) ys bs = bs @ map g ys"
  by (induction ys arbitrary: bs) auto

lemma fold_append_concat: "fold (\<lambda>x bs. bs @ h x) xs bs = bs @ concat (map h xs)"
  by (induction xs arbitrary: bs) auto

lemma concat_map_upt_grid:
  "concat (map (\<lambda>i. map (f i) [0..<m]) [0..<n]) = map (\<lambda>k. f (k div m) (k mod m)) [0..<n * m]"
proof (rule nth_equalityI)
  show "length (concat (map (\<lambda>i. map (f i) [0..<m]) [0..<n])) =
        length (map (\<lambda>k. f (k div m) (k mod m)) [0..<n * m])"
    by (simp add: length_concat_map_const)
next
  fix k assume "k < length (concat (map (\<lambda>i. map (f i) [0..<m]) [0..<n]))"
  then have k: "k < n * m" by (simp add: length_concat_map_const)
  then have m0: "0 < m" by (cases m) auto
  have "k div m < n" using k by (simp add: less_mult_imp_div_less)
  moreover have "k mod m < m" using m0 by simp
  ultimately show "concat (map (\<lambda>i. map (f i) [0..<m]) [0..<n]) ! k =
        map (\<lambda>k. f (k div m) (k mod m)) [0..<n * m] ! k"
    using k by (simp add: nth_concat_map_const [where m = m])
qed

section \<open>Integer division by a positive cell size\<close>

lemma div_eq_iff_bounds:
  fixes x s q :: int
  assumes "0 < s"
  shows "x div s = q \<longleftrightarrow> s * q \<le> x \<and> x < s * q + s"
proof
  assume q: "x div s = q"
  have "x div s * s + x mod s = x" by (rule div_mult_mod_eq)
  with q have "s * q + x mod s = x" by (simp add: mult.commute)
  moreover have "0 \<le> x mod s" "x mod s < s" using assms by simp_all
  ultimately show "s * q \<le> x \<and> x < s * q + s" by linarith
next
  assume b: "s * q \<le> x \<and> x < s * q + s"
  then have "(x - s * q) div s = 0" using assms by (simp add: div_pos_pos_trivial)
  moreover have "x div s = (x - s * q) div s + q"
    using assms by (metis add.commute add_diff_cancel_left' diff_add_cancel div_mult_self2 less_irrefl mult.commute)
  ultimately show "x div s = q" by simp
qed

lemma div_cell_bound:
  fixes x s :: int
  assumes "0 < s" and "0 \<le> x" and "x < int n * s"
  shows "0 \<le> x div s" and "nat (x div s) < n"
proof -
  show nn: "0 \<le> x div s" using assms by (simp add: pos_imp_zdiv_nonneg_iff)
  have le: "s * (x div s) \<le> x"
    using div_eq_iff_bounds [OF assms(1), of x "x div s"] by simp
  have "x div s < int n"
  proof (rule ccontr)
    assume "\<not> x div s < int n"
    then have "s * int n \<le> s * (x div s)" using assms(1) by simp
    with le assms(3) show False by (simp add: mult.commute)
  qed
  with nn show "nat (x div s) < n" by simp
qed

text \<open>Cell \<open>j\<close> of an \<open>n * n\<close> grid of \<open>s * s\<close> cells stored column by column (column
  \<open>j div n\<close>, row \<open>j mod n\<close>) holds exactly the points of the grid whose cell index,
  computed by division, is \<open>j\<close>.\<close>

lemma grid_cell_hit:
  fixes px py s :: int
  assumes s: "0 < s" and j: "j < n * n"
  shows "(int (j div n) * s \<le> px \<and> px < int (j div n) * s + s \<and>
          int (j mod n) * s \<le> py \<and> py < int (j mod n) * s + s) \<longleftrightarrow>
         (0 \<le> px \<and> px < int n * s \<and> 0 \<le> py \<and> py < int n * s \<and>
          nat (px div s) * n + nat (py div s) = j)"
    (is "?L \<longleftrightarrow> ?R")
proof
  have n0: "0 < n" using j by (cases n) auto
  have jn: "j div n < n" using j by (simp add: less_mult_imp_div_less)
  assume ?L
  then have dx: "px div s = int (j div n)" and dy: "py div s = int (j mod n)"
    using s by (simp_all add: div_eq_iff_bounds mult.commute)
  have step: "int i * s + s \<le> int n * s" if "i < n" for i
  proof -
    have "(int i + 1) * s \<le> int n * s"
      using that s by (intro mult_right_mono) simp_all
    then show ?thesis by (simp add: distrib_right)
  qed
  have "int (j div n) * s + s \<le> int n * s" using jn by (rule step)
  moreover have "int (j mod n) * s + s \<le> int n * s" using n0 by (intro step) simp
  moreover have "nat (px div s) * n + nat (py div s) = j"
    using dx dy by simp
  moreover have "0 \<le> int (j div n) * s" "0 \<le> int (j mod n) * s" using s by simp_all
  ultimately show ?R using \<open>?L\<close> by (intro conjI; linarith)
next
  assume r: ?R
  then have a: "nat (px div s) < n" and b: "nat (py div s) < n"
    and a0: "0 \<le> px div s" and b0: "0 \<le> py div s"
    using s div_cell_bound [of s px n] div_cell_bound [of s py n] by auto
  from r have "j div n = nat (px div s)" and "j mod n = nat (py div s)"
    using b by auto
  then have "px div s = int (j div n)" and "py div s = int (j mod n)"
    using a0 b0 by simp_all
  then show ?L using s by (simp add: div_eq_iff_bounds mult.commute)
qed

lemma index_lt_square:
  fixes a b n :: nat
  assumes "a < n" and "b < n"
  shows "a * n + b < n * n"
proof -
  have "a * n + b < a * n + n" using assms(2) by simp
  also have "\<dots> = Suc a * n" by simp
  also have "\<dots> \<le> n * n" using assms(1) by (intro mult_le_mono1) simp
  finally show ?thesis .
qed

lemma square_index_eq:
  fixes a b i j n :: nat
  assumes "i < n" "j < n" "b < n"
  shows "i * n + j = a * n + b \<longleftrightarrow> i = a \<and> j = b"
proof
  assume e: "i * n + j = a * n + b"
  have "(i * n + j) mod n = j" and "(a * n + b) mod n = b" using assms by simp_all
  with e have "j = b" by simp
  moreover have "(i * n + j) div n = i" and "(a * n + b) div n = a" using assms by simp_all
  moreover have "0 < n" using assms by simp
  ultimately show "i = a \<and> j = b" using e by simp
qed simp

end
