(* ===== verification/Draw.thy ===== *)
theory Draw
  imports Taint_Base
begin

text \<open>
  The pygame drawing calls the program makes, as transformers of a surface. A surface
  (\<^verbatim>\<open>pygame.Surface\<close>) is a map from pixels to colours; pixels outside its size are
  never read, so clipping needs no model. The primitives are pygame's, not code of the
  repository: \<open>Surface.fill\<close>; \<open>pygame.draw.rect\<close> with width 0 (filled) and
  width 1 (a one-pixel outline inside the rectangle); \<open>pygame.draw.line\<close> of width 1
  between two points on the same column or row, both end points included (the grid
  lines). Lines of any width and slope, used by the button icons, are in \<open>Buttons\<close>.
\<close>

type_synonym surface = "point \<Rightarrow> color"

definition surface_fill :: "surface \<Rightarrow> color \<Rightarrow> surface" where
  "surface_fill s c = (\<lambda>_. c)"

definition draw_rect :: "surface \<Rightarrow> color \<Rightarrow> 'a rect_scheme \<Rightarrow> surface" where
  "draw_rect s c r = (\<lambda>p. if collidepoint r p then c else s p)"

fun on_border :: "'a rect_scheme \<Rightarrow> point \<Rightarrow> bool" where
  "on_border r (px, py) =
     (collidepoint r (px, py) \<and>
      (px = rx r \<or> px = rx r + rw r - 1 \<or> py = ry r \<or> py = ry r + rh r - 1))"

definition draw_rect_border :: "surface \<Rightarrow> color \<Rightarrow> 'a rect_scheme \<Rightarrow> surface" where
  "draw_rect_border s c r = (\<lambda>p. if on_border r p then c else s p)"

definition draw_vline :: "surface \<Rightarrow> color \<Rightarrow> int \<Rightarrow> int \<Rightarrow> int \<Rightarrow> surface" where
  "draw_vline s c x y0 y1 = (\<lambda>(px, py). if px = x \<and> y0 \<le> py \<and> py \<le> y1 then c else s (px, py))"

definition draw_hline :: "surface \<Rightarrow> color \<Rightarrow> int \<Rightarrow> int \<Rightarrow> int \<Rightarrow> surface" where
  "draw_hline s c x0 x1 y = (\<lambda>(px, py). if py = y \<and> x0 \<le> px \<and> px \<le> x1 then c else s (px, py))"

lemma on_border_collide: "on_border r p \<Longrightarrow> collidepoint r p"
  by (cases p) simp

lemmas draw_defs = surface_fill_def draw_rect_def draw_rect_border_def draw_vline_def draw_hline_def

section \<open>Drawing a sequence of filled rectangles\<close>

text \<open>
  After filled rectangles are drawn in list order, a pixel shows the colour of the last
  rectangle that contains it, or what was there before if none does.
\<close>

lemma fold_draw_rect_pixel:
  "fold (\<lambda>b s. draw_rect s (f b) b) bs s0 p =
     (case find (\<lambda>b. collidepoint b p) (rev bs) of None \<Rightarrow> s0 p | Some b \<Rightarrow> f b)"
  by (induction bs rule: rev_induct) (auto simp: draw_rect_def)

text \<open>Lines drawn at the positions of a list leave every other pixel alone.\<close>

lemma fold_grid_lines_pixel:
  "fold (\<lambda>v s. draw_hline (draw_vline s c v 0 h) c 0 w v) vs s0 (px, py) =
     (if (px \<in> set vs \<and> 0 \<le> py \<and> py \<le> h) \<or> (py \<in> set vs \<and> 0 \<le> px \<and> px \<le> w)
      then c else s0 (px, py))"
  by (induction vs arbitrary: s0) (auto simp: draw_vline_def draw_hline_def)

end
