(* ===== verification/Canvas.thy ===== *)
theory Canvas
  imports Draw
begin

text \<open>
  The drawing area: class \<open>Block\<close> and class \<open>Canvas\<close> of \<^verbatim>\<open>src/taint.py\<close>.
  A canvas holds \<open>N * N\<close> blocks of \<open>SIZE * SIZE\<close> pixels, created column by
  column, a grid flag and the surface it renders into. The theory proves that the blocks
  always tile the canvas, that \<open>paint\<close> recolours exactly the block under the pointer
  (against an abstract grid of cells), that \<open>clear\<close> whitens every block, and what
  \<open>update\<close> renders at each pixel.
\<close>

section \<open>Blocks and the canvas state\<close>

record block = rect +
  color :: color

definition Block :: "int \<Rightarrow> int \<Rightarrow> int \<Rightarrow> int \<Rightarrow> color \<Rightarrow> block" where
  "Block x y w h c = \<lparr>rx = x, ry = y, rw = w, rh = h, color = c\<rparr>"

record canvas =
  cblocks :: "block list"
  show_grid :: int
  surf :: surface

text \<open>\<open>Canvas.__init__\<close> creates a surface of \<open>N*SIZE\<close> by \<open>N*SIZE\<close> pixels;
  \<open>get_width()\<close> and \<open>get_height()\<close> both read this size.\<close>

definition canvas_size :: int where
  "canvas_size = int N * SIZE"

section \<open>Operations\<close>

definition init_canvas :: "canvas \<Rightarrow> canvas" where
  "init_canvas cv = cv\<lparr>cblocks :=
     fold (\<lambda>x bs. fold (\<lambda>y bs. bs @ [Block x y SIZE SIZE WHITE]) (py_range 0 canvas_size SIZE) bs)
       (py_range 0 canvas_size SIZE) (cblocks cv)\<rparr>"

text \<open>\<open>paint\<close>: the loop stops (\<open>break\<close>) at the first block that contains the point.\<close>

fun paint_blocks :: "block list \<Rightarrow> point \<Rightarrow> color \<Rightarrow> block list" where
  "paint_blocks [] pos c = []"
| "paint_blocks (b # bs) pos c =
     (if collidepoint b pos then b\<lparr>color := c\<rparr> # bs else b # paint_blocks bs pos c)"

definition paint :: "canvas \<Rightarrow> point \<Rightarrow> color \<Rightarrow> canvas" where
  "paint cv pos c = cv\<lparr>cblocks := paint_blocks (cblocks cv) pos c\<rparr>"

definition toggle_grid :: "canvas \<Rightarrow> canvas" where
  "toggle_grid cv = cv\<lparr>show_grid := 1 - show_grid cv\<rparr>"

definition draw_rects :: "canvas \<Rightarrow> canvas" where
  "draw_rects cv = cv\<lparr>surf := fold (\<lambda>b s. draw_rect s (color b) b) (cblocks cv) (surf cv)\<rparr>"

definition draw_grid :: "canvas \<Rightarrow> canvas" where
  "draw_grid cv = cv\<lparr>surf :=
     fold (\<lambda>v s. draw_hline (draw_vline s BLACK v 0 canvas_size) BLACK 0 canvas_size v)
       (py_range 0 canvas_size SIZE) (surf cv)\<rparr>"

definition update :: "canvas \<Rightarrow> canvas" where
  "update cv =
     (let cv1 = draw_rects (cv\<lparr>surf := surface_fill (surf cv) BLACK\<rparr>)
      in if show_grid cv1 \<noteq> 0 then draw_grid cv1 else cv1)"

definition clear :: "canvas \<Rightarrow> canvas" where
  "clear cv = cv\<lparr>cblocks := map (\<lambda>b. b\<lparr>color := WHITE\<rparr>) (cblocks cv)\<rparr>"

text \<open>\<open>Canvas()\<close>: a new surface is black; \<open>show_grid = 0\<close>; blocks, then a render.\<close>

definition Canvas :: canvas where
  "Canvas = update (init_canvas \<lparr>cblocks = [], show_grid = 0, surf = (\<lambda>_. BLACK)\<rparr>)"

text \<open>\<open>canvas.get_rect()\<close>, the area the main loop paints in.\<close>

definition get_rect :: rect where
  "get_rect = Rect 0 0 canvas_size canvas_size"

section \<open>Geometry of the grid\<close>

text \<open>Block \<open>j\<close> of the list is column \<open>j div N\<close>, row \<open>j mod N\<close>.\<close>

definition grid_rect :: "nat \<Rightarrow> rect" where
  "grid_rect j = Rect (int (j div N) * SIZE) (int (j mod N) * SIZE) SIZE SIZE"

fun cell_index :: "point \<Rightarrow> nat" where
  "cell_index (px, py) = nat (px div SIZE) * N + nat (py div SIZE)"

definition in_canvas :: "point \<Rightarrow> bool" where
  "in_canvas p = collidepoint get_rect p"

definition canvas_inv :: "canvas \<Rightarrow> bool" where
  "canvas_inv cv \<longleftrightarrow> map rect_of (cblocks cv) = map grid_rect [0..<N * N] \<and> show_grid cv \<in> {0, 1}"

section \<open>Abstract specification: a grid of cells\<close>

text \<open>
  What the canvas promises, without blocks or pixels: an \<open>N * N\<close> grid of cells
  (column, row), each with a colour. Painting at a point of the canvas recolours the
  cell that contains it; clearing makes every cell white.
\<close>

type_synonym cells = "nat \<times> nat \<Rightarrow> color option"

definition cells :: "canvas \<Rightarrow> cells" where
  "cells cv = (\<lambda>(i, j). if i < N \<and> j < N then Some (color (cblocks cv ! (i * N + j))) else None)"

fun cell_of :: "point \<Rightarrow> (nat \<times> nat) option" where
  "cell_of (px, py) =
     (if in_canvas (px, py) then Some (nat (px div SIZE), nat (py div SIZE)) else None)"

definition paint_cells :: "cells \<Rightarrow> point \<Rightarrow> color \<Rightarrow> cells" where
  "paint_cells g p c = (case cell_of p of None \<Rightarrow> g | Some ij \<Rightarrow> g(ij := Some c))"

definition clear_cells :: "cells \<Rightarrow> cells" where
  "clear_cells g = (\<lambda>ij. map_option (\<lambda>_. WHITE) (g ij))"

section \<open>Layout lemmas\<close>

lemma init_canvas_blocks [layout_simps]:
  "cblocks (init_canvas cv) =
     cblocks cv @ map (\<lambda>j. Block (int (j div N) * SIZE) (int (j mod N) * SIZE) SIZE SIZE WHITE) [0..<N * N]"
proof -
  have r: "py_range 0 canvas_size SIZE = map (\<lambda>i. int i * SIZE) [0..<N]"
    by (simp add: canvas_size_def py_range_zero)
  show ?thesis
    by (simp add: init_canvas_def r fold_snoc_map fold_append_concat comp_def
        concat_map_upt_grid [where f = "\<lambda>i k. Block (int i * SIZE) (int k * SIZE) SIZE SIZE WHITE"])
qed

lemma length_cblocks [layout_simps]: "canvas_inv cv \<Longrightarrow> length (cblocks cv) = N * N"
  unfolding canvas_inv_def by (metis length_map length_upt minus_nat.diff_0)

lemma rect_of_cblocks [layout_simps]:
  "canvas_inv cv \<Longrightarrow> j < N * N \<Longrightarrow> rect_of (cblocks cv ! j) = grid_rect j"
  unfolding canvas_inv_def by (metis (no_types, lifting) add_0 diff_zero length_map length_upt nth_map nth_upt)

lemma grid_rect_hit [layout_simps]:
  "j < N * N \<Longrightarrow> collidepoint (grid_rect j) p \<longleftrightarrow> in_canvas p \<and> cell_index p = j"
proof (cases p)
  case (Pair px py)
  assume j: "j < N * N"
  show ?thesis
    unfolding Pair grid_rect_def in_canvas_def get_rect_def Rect_def canvas_size_def
      collidepoint.simps rect.simps cell_index.simps add_0 conj_assoc
    by (rule grid_cell_hit [OF SIZE_pos j])
qed

lemma cell_index_bound [layout_simps]: "in_canvas p \<Longrightarrow> cell_index p < N * N"
proof (cases p)
  case (Pair px py)
  assume "in_canvas p"
  with Pair have "0 \<le> px" "px < int N * SIZE" "0 \<le> py" "py < int N * SIZE"
    by (simp_all add: in_canvas_def get_rect_def Rect_def canvas_size_def)
  then have "nat (px div SIZE) < N" "nat (py div SIZE) < N"
    using div_cell_bound [OF SIZE_pos] by blast+
  then have "nat (px div SIZE) * N + nat (py div SIZE) < N * N"
    by (rule index_lt_square)
  with Pair show ?thesis by simp
qed

lemma cblocks_hit [layout_simps]:
  assumes "canvas_inv cv" and "j < length (cblocks cv)"
  shows "collidepoint (cblocks cv ! j) p \<longleftrightarrow> in_canvas p \<and> cell_index p = j"
proof -
  have j: "j < N * N" using assms by (simp add: length_cblocks)
  have "collidepoint (cblocks cv ! j) p = collidepoint (rect_of (cblocks cv ! j)) p"
    by (simp only: collidepoint_rect_of)
  also have "\<dots> = collidepoint (grid_rect j) p"
    by (simp only: rect_of_cblocks [OF assms(1) j])
  finally have "collidepoint (cblocks cv ! j) p = collidepoint (grid_rect j) p" .
  then show ?thesis using grid_rect_hit [OF j] by simp
qed

section \<open>The paint loop\<close>

lemma paint_blocks_unique:
  assumes "k < length bs" and "\<And>j. j < length bs \<Longrightarrow> collidepoint (bs ! j) pos \<longleftrightarrow> j = k"
  shows "paint_blocks bs pos c = bs[k := (bs ! k)\<lparr>color := c\<rparr>]"
  using assms
proof (induction bs arbitrary: k)
  case Nil
  then show ?case by simp
next
  case (Cons b bs)
  show ?case
  proof (cases k)
    case 0
    with Cons.prems(2) [of 0] show ?thesis by simp
  next
    case (Suc k')
    with Cons.prems(2) [of 0] have nb: "\<not> collidepoint b pos" by simp
    have "k' < length bs" using Cons.prems(1) Suc by simp
    moreover have "collidepoint (bs ! j) pos \<longleftrightarrow> j = k'" if "j < length bs" for j
      using Cons.prems(2) [of "Suc j"] that Suc by simp
    ultimately have "paint_blocks bs pos c = bs[k' := (bs ! k')\<lparr>color := c\<rparr>]"
      by (rule Cons.IH)
    with nb Suc show ?thesis by simp
  qed
qed

lemma paint_blocks_none: "\<forall>b \<in> set bs. \<not> collidepoint b pos \<Longrightarrow> paint_blocks bs pos c = bs"
  by (induction bs) auto

lemma rect_of_color_upd [simp]: "rect_of (b\<lparr>color := c\<rparr>) = rect_of b"
  by (simp add: rect_of_def)

lemma map_rect_of_paint_blocks [simp]: "map rect_of (paint_blocks bs pos c) = map rect_of bs"
  by (induction bs) auto

section \<open>Invariant: the blocks tile the canvas\<close>

lemma update_fields [simp]:
  "cblocks (update cv) = cblocks cv" "show_grid (update cv) = show_grid cv"
  by (simp_all add: update_def draw_rects_def draw_grid_def Let_def)

lemma init_canvas_fields [simp]:
  "show_grid (init_canvas cv) = show_grid cv" "surf (init_canvas cv) = surf cv"
  by (simp_all add: init_canvas_def)

lemma toggle_grid_fields [simp]:
  "cblocks (toggle_grid cv) = cblocks cv" "surf (toggle_grid cv) = surf cv"
  "show_grid (toggle_grid cv) = 1 - show_grid cv"
  by (simp_all add: toggle_grid_def)

lemma Canvas_inv: "canvas_inv Canvas"
  by (simp add: Canvas_def canvas_inv_def init_canvas_blocks comp_def Block_def rect_of_def
      grid_rect_def Rect_def)

lemma paint_inv: "canvas_inv cv \<Longrightarrow> canvas_inv (paint cv p c)"
  by (simp add: canvas_inv_def paint_def)

lemma clear_inv: "canvas_inv cv \<Longrightarrow> canvas_inv (clear cv)"
  by (simp add: canvas_inv_def clear_def comp_def)

lemma toggle_grid_inv: "canvas_inv cv \<Longrightarrow> canvas_inv (toggle_grid cv)"
  by (auto simp: canvas_inv_def toggle_grid_def)

lemma update_inv: "canvas_inv cv \<Longrightarrow> canvas_inv (update cv)"
  by (simp add: canvas_inv_def)

lemmas canvas_inv_preserved = Canvas_inv paint_inv clear_inv toggle_grid_inv update_inv

section \<open>Paint at one cell\<close>

lemma paint_at_cell:
  assumes "canvas_inv cv" and "in_canvas p"
  shows "cblocks (paint cv p c) = (cblocks cv)[cell_index p := (cblocks cv ! cell_index p)\<lparr>color := c\<rparr>]"
proof -
  have k: "cell_index p < length (cblocks cv)"
    using assms by (simp add: length_cblocks cell_index_bound)
  have "collidepoint (cblocks cv ! j) p \<longleftrightarrow> j = cell_index p" if "j < length (cblocks cv)" for j
    using cblocks_hit [OF assms(1) that] assms(2) by auto
  then show ?thesis
    using paint_blocks_unique [OF k] by (simp add: paint_def)
qed

lemma no_block_off_canvas:
  "canvas_inv cv \<Longrightarrow> \<not> in_canvas p \<Longrightarrow> \<forall>b \<in> set (cblocks cv). \<not> collidepoint b p"
  by (auto simp: in_set_conv_nth cblocks_hit)

lemma cell_of_Some:
  assumes "in_canvas (px, py)"
  shows "cell_of (px, py) = Some (nat (px div SIZE), nat (py div SIZE))"
    and "nat (px div SIZE) < N" and "nat (py div SIZE) < N"
proof -
  have "0 \<le> px" "px < int N * SIZE" "0 \<le> py" "py < int N * SIZE"
    using assms by (simp_all add: in_canvas_def get_rect_def Rect_def canvas_size_def)
  then show "nat (px div SIZE) < N" and "nat (py div SIZE) < N"
    using div_cell_bound [OF SIZE_pos] by blast+
  show "cell_of (px, py) = Some (nat (px div SIZE), nat (py div SIZE))"
    using assms by simp
qed

section \<open>Behaviour of the operations\<close>

text \<open>C1. Painting at a point of the canvas gives the block under the point the new
  colour and leaves every other block as it was.\<close>

theorem paint_changes_one_cell:
  assumes "canvas_inv cv" and "in_canvas p" and "j < N * N"
  shows "cblocks (paint cv p c) ! j =
    (if j = cell_index p then (cblocks cv ! j)\<lparr>color := c\<rparr> else cblocks cv ! j)"
  using assms by (simp add: paint_at_cell length_cblocks)

text \<open>C2. Painting at a point outside the canvas changes nothing.\<close>

theorem paint_outside:
  assumes "canvas_inv cv" and "\<not> in_canvas p"
  shows "paint cv p c = cv"
  using no_block_off_canvas [OF assms] by (simp add: paint_def paint_blocks_none)

text \<open>C3. Refinement: on the abstract grid of cells, \<open>paint\<close> is "recolour the cell
  that contains the point, if any".\<close>

theorem paint_refines:
  assumes inv: "canvas_inv cv"
  shows "cells (paint cv p c) = paint_cells (cells cv) p c"
proof (cases "in_canvas p")
  case True
  obtain px py where p: "p = (px, py)" by (cases p)
  let ?a = "nat (px div SIZE)" and ?b = "nat (py div SIZE)"
  have a: "?a < N" and b: "?b < N" and co: "cell_of p = Some (?a, ?b)"
    using cell_of_Some True p by auto
  have len: "length (cblocks cv) = N * N" using inv by (rule length_cblocks)
  have pa: "cblocks (paint cv p c) =
      (cblocks cv)[?a * N + ?b := (cblocks cv ! (?a * N + ?b))\<lparr>color := c\<rparr>]"
    using paint_at_cell [OF inv True] p by simp
  show ?thesis
  proof (rule ext, clarify)
    fix i j
    show "cells (paint cv p c) (i, j) = paint_cells (cells cv) p c (i, j)"
      using a b len index_lt_square [of i N j] index_lt_square [OF a b] square_index_eq [of i N j ?b ?a]
      by (auto simp: cells_def paint_cells_def co pa)
  qed
next
  case False
  then have "paint cv p c = cv"
    using no_block_off_canvas [OF inv] by (simp add: paint_def paint_blocks_none)
  moreover have "cell_of p = None" using False by (cases p) simp
  ultimately show ?thesis by (simp add: paint_cells_def)
qed

text \<open>C4. \<open>clear\<close> makes every block white and keeps their number.\<close>

theorem clear_all_white:
  "map color (cblocks (clear cv)) = replicate (length (cblocks cv)) WHITE"
  by (simp add: clear_def comp_def map_replicate_const)

text \<open>C5. Refinement: on the abstract grid, \<open>clear\<close> makes every cell white.\<close>

theorem clear_refines:
  assumes "canvas_inv cv"
  shows "cells (clear cv) = clear_cells (cells cv)"
proof (rule ext, clarify)
  fix i j
  show "cells (clear cv) (i, j) = clear_cells (cells cv) (i, j)"
    using index_lt_square [of i N j] length_cblocks [OF assms]
    by (simp add: cells_def clear_cells_def clear_def)
qed

text \<open>C6. \<open>toggle_grid\<close> toggles: on a well-formed canvas (flag 0 or 1) it shows the
  grid exactly when it was hidden, keeps the blocks and the invariant, and a second toggle
  restores the canvas.\<close>

theorem toggle_grid_flips:
  assumes "canvas_inv cv"
  shows "(show_grid (toggle_grid cv) \<noteq> 0 \<longleftrightarrow> show_grid cv = 0) \<and> cblocks (toggle_grid cv) = cblocks cv \<and>
    canvas_inv (toggle_grid cv) \<and> toggle_grid (toggle_grid cv) = cv"
  using assms toggle_grid_inv [OF assms] by (auto simp: canvas_inv_def toggle_grid_def)

section \<open>Rendering\<close>

lemma update_pixel_eq:
  assumes inv: "canvas_inv cv" and inc: "in_canvas (px, py)"
  shows "surf (update cv) (px, py) =
    (if show_grid cv \<noteq> 0 \<and> (px mod SIZE = 0 \<or> py mod SIZE = 0) then BLACK
     else color (cblocks cv ! cell_index (px, py)))"
proof -
  let ?k = "cell_index (px, py)"
  have k: "?k < length (cblocks cv)"
    using cell_index_bound [OF inc] length_cblocks [OF inv] by simp
  have hit: "collidepoint (cblocks cv ! j) (px, py) \<longleftrightarrow> j = ?k" if "j < length (cblocks cv)" for j
    using cblocks_hit [OF inv that, of "(px, py)"] inc
    by (auto simp del: collidepoint.simps cell_index.simps)
  have fnd: "find (\<lambda>b. collidepoint b (px, py)) (rev (cblocks cv)) = Some (cblocks cv ! ?k)"
    by (rule find_rev_unique_index [OF k hit])
  have bounds: "0 \<le> px" "px < int N * SIZE" "0 \<le> py" "py < int N * SIZE"
    using inc by (simp_all add: in_canvas_def get_rect_def Rect_def canvas_size_def)
  have lines: "px \<in> set (py_range 0 (int N * SIZE) SIZE) \<longleftrightarrow> px mod SIZE = 0"
    "py \<in> set (py_range 0 (int N * SIZE) SIZE) \<longleftrightarrow> py mod SIZE = 0"
    using py_range_mem [OF SIZE_pos] bounds by simp_all
  show ?thesis
    using fnd bounds lines
    by (simp add: update_def Let_def draw_rects_def draw_grid_def fold_draw_rect_pixel
        fold_grid_lines_pixel canvas_size_def)
qed


lemma update_keeps_inv [simp]: "canvas_inv (update cv) = canvas_inv cv"
  by (simp add: canvas_inv_def)

text \<open>\<open>update\<close> starts with a fill: the surface it renders depends only on the blocks
  and the grid flag, not on the surface before.\<close>

lemma update_surf_cong:
  "cblocks cv = cblocks cv' \<Longrightarrow> show_grid cv = show_grid cv' \<Longrightarrow> surf (update cv) = surf (update cv')"
  by (simp add: update_def draw_rects_def draw_grid_def surface_fill_def Let_def)

lemma update_update_surf [simp]: "surf (update (update cv)) = surf (update cv)"
  by (rule update_surf_cong) simp_all

lemma cells_update [simp]: "cells (update cv) = cells cv"
  unfolding cells_def update_fields ..

lemma cells_at:
  assumes "canvas_inv cv" and "in_canvas (px, py)"
  shows "cells cv (nat (px div SIZE), nat (py div SIZE)) = Some (color (cblocks cv ! cell_index (px, py)))"
  using cell_of_Some [OF assms(2)] by (simp add: cells_def)

text \<open>C7. What \<open>update\<close> renders, against the abstract grid: a pixel of the canvas is
  black when the grid is shown and the pixel lies on a grid line (its column or its row
  is a multiple of \<open>SIZE\<close>), and otherwise has the colour of the cell that contains
  it.\<close>

theorem update_renders_cells:
  assumes "canvas_inv cv" and "in_canvas (px, py)"
  shows "Some (surf (update cv) (px, py)) =
    (if show_grid cv \<noteq> 0 \<and> (px mod SIZE = 0 \<or> py mod SIZE = 0) then Some BLACK
     else cells cv (nat (px div SIZE), nat (py div SIZE)))"
  using update_pixel_eq [OF assms] cells_at [OF assms] by simp

section \<open>Witnesses at the initial canvas\<close>

lemma in_canvas_origin: "in_canvas (0, 0)" and in_canvas_1_1: "in_canvas (1, 1)"
  and not_in_canvas_500: "\<not> in_canvas (500, 0)"
  by (simp_all add: in_canvas_def get_rect_def Rect_def canvas_size_def N_def SIZE_def)

lemma cblocks_Canvas_0: "cblocks Canvas ! 0 = Block 0 0 SIZE SIZE WHITE"
  by (simp add: Canvas_def init_canvas_blocks)

lemma show_grid_Canvas: "show_grid Canvas = 0"
  by (simp add: Canvas_def)

lemma color_cblocks_Canvas: "k < N * N \<Longrightarrow> color (cblocks Canvas ! k) = WHITE"
  by (simp add: Canvas_def init_canvas_blocks Block_def)

lemma surf_Canvas_pixel:
  assumes "in_canvas (px, py)"
  shows "surf Canvas (px, py) = WHITE"
proof -
  let ?c0 = "init_canvas \<lparr>cblocks = [], show_grid = 0, surf = \<lambda>_. BLACK\<rparr>"
  have inv: "canvas_inv ?c0" using Canvas_inv by (simp add: Canvas_def)
  have "cell_index (px, py) < N * N" using cell_index_bound [OF assms] .
  then have "color (cblocks ?c0 ! cell_index (px, py)) = WHITE"
    by (simp add: init_canvas_blocks Block_def del: cell_index.simps)
  then show ?thesis
    using update_pixel_eq [OF inv assms] by (simp add: Canvas_def del: cell_index.simps)
qed

theorem paint_changes_one_cell_witness:
  "canvas_inv Canvas \<and> in_canvas (0, 0) \<and> 1 < N * N \<and>
   cblocks (paint Canvas (0, 0) BLUE) ! 0 = Block 0 0 SIZE SIZE BLUE \<and>
   cblocks (paint Canvas (0, 0) BLUE) ! 1 = cblocks Canvas ! 1"
proof -
  have n: "1 < N * N" by (simp add: N_def)
  show ?thesis
    using paint_changes_one_cell [OF Canvas_inv in_canvas_origin, of 0 BLUE]
      paint_changes_one_cell [OF Canvas_inv in_canvas_origin n, of BLUE]
      Canvas_inv in_canvas_origin n
    by (simp add: cblocks_Canvas_0 Block_def)
qed

theorem paint_outside_witness:
  "canvas_inv Canvas \<and> \<not> in_canvas (500, 0) \<and> paint Canvas (500, 0) BLUE = Canvas"
  using paint_outside [OF Canvas_inv not_in_canvas_500] Canvas_inv not_in_canvas_500 by simp

theorem paint_refines_witness:
  "canvas_inv Canvas \<and> cells (paint Canvas (0, 0) BLUE) (0, 0) = Some BLUE"
  using paint_refines [OF Canvas_inv, of "(0, 0)" BLUE] Canvas_inv in_canvas_origin
  by (simp add: paint_cells_def)

theorem clear_refines_witness:
  "canvas_inv Canvas \<and> cells (clear Canvas) (0, 0) = Some WHITE"
  unfolding clear_refines [OF Canvas_inv] using Canvas_inv
  by (simp add: clear_cells_def cells_def cblocks_Canvas_0 Block_def)

theorem update_renders_cells_witness:
  "canvas_inv Canvas \<and> in_canvas (1, 1) \<and> surf (update Canvas) (1, 1) = WHITE"
  using update_renders_cells [OF Canvas_inv in_canvas_1_1] Canvas_inv in_canvas_1_1
  by (simp add: show_grid_Canvas cells_def cblocks_Canvas_0 Block_def SIZE_def)


theorem toggle_grid_flips_witness:
  "canvas_inv Canvas \<and> show_grid (toggle_grid Canvas) \<noteq> 0"
  using toggle_grid_flips [OF Canvas_inv] Canvas_inv by (simp add: show_grid_Canvas)

end
