(* ===== verification/Dialogs.thy ===== *)
theory Dialogs
  imports Taint_Base
begin

text \<open>
  The three modal Tk dialogs of \<^verbatim>\<open>src/taint.py\<close> (\<open>prompt_file\<close>,
  \<open>prompt_color\<close>, \<open>prompt_clear\<close>). Each blocks the program until the user
  answers. The user is modelled as the sequences of answers they will give to each kind
  of dialog; a prompt consumes the next answer of its kind. With no answer left the
  dialog stays open: the call never returns, the value \<open>Inl Blocked\<close>.
  \<^item> \<open>asksaveasfilename\<close> returns the chosen path, or the empty string when cancelled;
  \<^item> \<open>askcolor(color=None)[0]\<close> returns an RGB triple, or \<open>None\<close> when cancelled;
  \<^item> \<open>askokcancel\<close> returns \<open>True\<close> for OK and \<open>False\<close> for Cancel.
\<close>

record user =
  file_answers :: "string list"
  color_answers :: "color option list"
  ok_answers :: "bool list"

definition prompt_file :: "user \<Rightarrow> error + (string \<times> user)" where
  "prompt_file u =
     (case file_answers u of [] \<Rightarrow> Inl Blocked | f # fs \<Rightarrow> Inr (f, u\<lparr>file_answers := fs\<rparr>))"

definition prompt_color :: "user \<Rightarrow> error + (color option \<times> user)" where
  "prompt_color u =
     (case color_answers u of [] \<Rightarrow> Inl Blocked | c # cs \<Rightarrow> Inr (c, u\<lparr>color_answers := cs\<rparr>))"

definition prompt_clear :: "user \<Rightarrow> error + (bool \<times> user)" where
  "prompt_clear u =
     (case ok_answers u of [] \<Rightarrow> Inl Blocked | b # bs \<Rightarrow> Inr (b, u\<lparr>ok_answers := bs\<rparr>))"

text \<open>A user who has no answer ready for any dialog.\<close>

abbreviation no_answers :: user where
  "no_answers \<equiv> \<lparr>file_answers = [], color_answers = [], ok_answers = []\<rparr>"

lemmas prompt_defs = prompt_file_def prompt_color_def prompt_clear_def

text \<open>A prompt either blocks or returns the user's next answer of its kind.\<close>

lemma prompt_file_cases:
  "prompt_file u = Inl Blocked \<and> file_answers u = [] \<or>
   (\<exists>f fs. file_answers u = f # fs \<and> prompt_file u = Inr (f, u\<lparr>file_answers := fs\<rparr>))"
  by (cases "file_answers u") (simp_all add: prompt_file_def)

lemma prompt_color_cases:
  "prompt_color u = Inl Blocked \<and> color_answers u = [] \<or>
   (\<exists>c cs. color_answers u = c # cs \<and> prompt_color u = Inr (c, u\<lparr>color_answers := cs\<rparr>))"
  by (cases "color_answers u") (simp_all add: prompt_color_def)

lemma prompt_clear_cases:
  "prompt_clear u = Inl Blocked \<and> ok_answers u = [] \<or>
   (\<exists>b bs. ok_answers u = b # bs \<and> prompt_clear u = Inr (b, u\<lparr>ok_answers := bs\<rparr>))"
  by (cases "ok_answers u") (simp_all add: prompt_clear_def)

lemma prompt_never_other_error:
  "prompt_file u \<noteq> Inl e \<or> e = Blocked"
  "prompt_color u \<noteq> Inl e \<or> e = Blocked"
  "prompt_clear u \<noteq> Inl e \<or> e = Blocked"
  by (auto simp: prompt_defs split: list.splits)

end
