(* ===== verification/Palette.thy ===== *)
theory Palette
  imports Canvas Dialogs
begin

text \<open>
  Class \<open>Palette\<close> of \<^verbatim>\<open>src/taint.py\<close>: the colours the user picks from, laid out
  three to a row to the right of \<open>offset\<close>, below two buttons (add a colour, clear the
  canvas), and the index of the selected block. \<open>select\<close> is the click handler: it
  calls the colour or confirmation dialog for a button, or selects the block under the
  pointer. The palette changes the canvas it is bound to (\<open>bind_canvas\<close>); in the
  model that canvas is passed to \<open>select\<close> and returned, the aliasing of the source
  made explicit.
\<close>

section \<open>State and operations\<close>

record palette =
  pblocks :: "block list"
  offset :: int
  colors :: "color list"
  button_add :: rect
  button_clear :: rect
  selected :: nat
  color_selected :: color
  canvas_bound :: bool

text \<open>
  \<open>init_palette\<close>: \<open>(idx/3).is_integer()\<close> holds exactly when \<open>3\<close> divides
  \<open>idx\<close> (the float division is exact for every index a list can have in practice).
  The loop appends to \<open>self.blocks\<close> without emptying it first.
\<close>

fun init_palette_loop :: "int \<Rightarrow> nat \<Rightarrow> int \<Rightarrow> int \<Rightarrow> color list \<Rightarrow> block list \<Rightarrow> block list" where
  "init_palette_loop off idx x y [] bs = bs"
| "init_palette_loop off idx x y (c # cs) bs =
     (let y' = (if idx mod 3 = 0 then y + SIZE else y);
          x' = (if idx mod 3 = 0 then 0 else x)
      in init_palette_loop off (Suc idx) (x' + SIZE) y' cs (bs @ [Block (off + x') y' SIZE SIZE c]))"

definition init_palette :: "palette \<Rightarrow> palette" where
  "init_palette p = p\<lparr>pblocks := init_palette_loop (offset p) 0 0 0 (colors p) (pblocks p)\<rparr>"

text \<open>\<open>Palette(offset, colors)\<close>: \<open>init_palette\<close> reads neither the buttons nor the
  selection, so setting them before it runs, as the record does, is the source's state.\<close>

definition Palette :: "int \<Rightarrow> color list \<Rightarrow> palette" where
  "Palette off cs = init_palette
     \<lparr>pblocks = [], offset = off, colors = cs,
      button_add = Rect off 0 SIZE SIZE, button_clear = Rect (off + SIZE) 0 SIZE SIZE,
      selected = 0, color_selected = (255, 213, 0), canvas_bound = False\<rparr>"

text \<open>The property \<open>color\<close>: \<open>self.blocks[self.selected].color\<close>, an
  \<open>IndexError\<close> when the index is out of range.\<close>

definition palette_color :: "palette \<Rightarrow> error + color" where
  "palette_color p =
     (if selected p < length (pblocks p) then Inr (color (pblocks p ! selected p)) else Inl IndexError)"

definition add_color :: "palette \<Rightarrow> color \<Rightarrow> palette" where
  "add_color p c = init_palette (p\<lparr>colors := colors p @ [c]\<rparr>)"

text \<open>The selection loop of \<open>select\<close> has no \<open>break\<close>: the last block that
  contains the point wins.\<close>

fun select_blocks :: "block list \<Rightarrow> nat \<Rightarrow> point \<Rightarrow> nat \<Rightarrow> nat" where
  "select_blocks [] idx pos sel = sel"
| "select_blocks (b # bs) idx pos sel =
     select_blocks bs (Suc idx) pos (if collidepoint b pos then idx else sel)"

definition select :: "palette \<Rightarrow> canvas \<Rightarrow> user \<Rightarrow> point \<Rightarrow> error + (palette \<times> canvas \<times> user)" where
  "select p cv u pos =
     (if collidepoint (button_add p) pos then
        (case prompt_color u of
           Inl e \<Rightarrow> Inl e
         | Inr (c, u') \<Rightarrow> Inr (case c of None \<Rightarrow> p | Some col \<Rightarrow> add_color p col, cv, u'))
      else if collidepoint (button_clear p) pos then
        (case prompt_clear u of
           Inl e \<Rightarrow> Inl e
         | Inr (ok, u') \<Rightarrow>
             if ok then (if canvas_bound p then Inr (p, clear cv, u') else Inl AttributeError)
             else Inr (p, cv, u'))
      else Inr (p\<lparr>selected := select_blocks (pblocks p) 0 pos (selected p)\<rparr>, cv, u))"

definition bind_canvas :: "palette \<Rightarrow> palette" where
  "bind_canvas p = p\<lparr>canvas_bound := True\<rparr>"

text \<open>The block part of \<open>Palette.draw\<close>: each block filled with its colour, the
  selected one then outlined in \<open>color_selected\<close>. The button icons are not modelled.\<close>

definition draw_palette_blocks :: "palette \<Rightarrow> surface \<Rightarrow> surface" where
  "draw_palette_blocks p s =
     fold (\<lambda>(idx, b) s. let s' = draw_rect s (color b) b
                        in if idx = selected p then draw_rect_border s' (color_selected p) b else s')
       (enumerate 0 (pblocks p)) s"

text \<open>The colours the main program seeds the palette with.\<close>

definition init_colors :: "color list" where
  "init_colors = [RED, GREEN, BLUE, WHITE, BLACK]"

section \<open>Reference layout and invariant\<close>

text \<open>Entry \<open>i\<close> of the palette sits in column \<open>i mod 3\<close> and screen row
  \<open>i div 3 + 1\<close>; row 0 holds the two buttons.\<close>

fun pal_block :: "int \<Rightarrow> nat \<times> color \<Rightarrow> block" where
  "pal_block off (i, c) = Block (off + int (i mod 3) * SIZE) (int (i div 3 + 1) * SIZE) SIZE SIZE c"

definition palette_layout :: "int \<Rightarrow> color list \<Rightarrow> block list" where
  "palette_layout off cs = map (pal_block off) (enumerate 0 cs)"

definition palette_loop_ok :: "nat \<Rightarrow> int \<Rightarrow> int \<Rightarrow> bool" where
  "palette_loop_ok idx x y \<longleftrightarrow>
     (if idx mod 3 = 0 then y = int (idx div 3) * SIZE
      else x = int (idx mod 3) * SIZE \<and> y = int (idx div 3 + 1) * SIZE)"

text \<open>
  The palette invariant: the blocks are, up to repetition, the blocks of the current
  layout (each has its entry's colour and place, and every entry has a block), the
  selection is a valid index into \<open>self.blocks\<close>, and the buttons sit in row 0 at the
  offset.
\<close>

definition palette_inv :: "palette \<Rightarrow> bool" where
  "palette_inv p \<longleftrightarrow>
     set (pblocks p) = set (palette_layout (offset p) (colors p)) \<and>
     selected p < length (pblocks p) \<and>
     button_add p = Rect (offset p) 0 SIZE SIZE \<and>
     button_clear p = Rect (offset p + SIZE) 0 SIZE SIZE"

section \<open>The layout loop against the reference layout\<close>

lemma palette_loop_step:
  assumes "palette_loop_ok idx x y"
  shows "(if idx mod 3 = 0 then 0 else x) = int (idx mod 3) * SIZE"
    and "(if idx mod 3 = 0 then y + SIZE else y) = int (idx div 3 + 1) * SIZE"
    and "palette_loop_ok (Suc idx) ((if idx mod 3 = 0 then 0 else x) + SIZE)
           (if idx mod 3 = 0 then y + SIZE else y)"
proof -
  have m: "idx mod 3 = 0 \<or> idx mod 3 = 1 \<or> idx mod 3 = 2" by arith
  then show "(if idx mod 3 = 0 then 0 else x) = int (idx mod 3) * SIZE"
    and "(if idx mod 3 = 0 then y + SIZE else y) = int (idx div 3 + 1) * SIZE"
    using assms by (auto simp: palette_loop_ok_def algebra_simps)
  from m show "palette_loop_ok (Suc idx) ((if idx mod 3 = 0 then 0 else x) + SIZE)
           (if idx mod 3 = 0 then y + SIZE else y)"
    using assms by (auto simp: palette_loop_ok_def mod_Suc div_Suc algebra_simps)
qed

lemma init_palette_loop_eq:
  "palette_loop_ok idx x y \<Longrightarrow>
   init_palette_loop off idx x y cs bs = bs @ map (pal_block off) (enumerate idx cs)"
proof (induction cs arbitrary: idx x y bs)
  case Nil
  then show ?case by simp
next
  case (Cons c cs)
  note st = palette_loop_step [OF Cons.prems]
  show ?case
    using Cons.IH [OF st(3)] st(1,2) by (simp add: Let_def)
qed

lemma init_palette_blocks [layout_simps]:
  "pblocks (init_palette p) = pblocks p @ palette_layout (offset p) (colors p)"
  by (simp add: init_palette_def init_palette_loop_eq palette_loop_ok_def palette_layout_def)

lemma init_palette_fields [simp]:
  "colors (init_palette p) = colors p" "offset (init_palette p) = offset p"
  "selected (init_palette p) = selected p" "button_add (init_palette p) = button_add p"
  "button_clear (init_palette p) = button_clear p" "canvas_bound (init_palette p) = canvas_bound p"
  "color_selected (init_palette p) = color_selected p"
  by (simp_all add: init_palette_def)


section \<open>Geometry of the layout\<close>

lemma color_pal_block [simp]: "color (pal_block off (i, c)) = c"
  by (simp add: Block_def)

lemma pal_block_hit:
  "collidepoint (pal_block off (i, c)) (px, py) \<longleftrightarrow>
     (px - off) div SIZE = int (i mod 3) \<and> py div SIZE = int (i div 3 + 1)"
  by (simp add: Block_def div_eq_iff_bounds mult.commute) arith

lemma pal_block_unique:
  assumes "collidepoint (pal_block off (i, c)) p" and "collidepoint (pal_block off (j, d)) p"
  shows "i = j"
proof -
  obtain px py where p: "p = (px, py)" by (cases p)
  have "(px - off) div SIZE = int (i mod 3) \<and> py div SIZE = int (i div 3 + 1)"
    using assms(1) unfolding p pal_block_hit .
  moreover have "(px - off) div SIZE = int (j mod 3) \<and> py div SIZE = int (j div 3 + 1)"
    using assms(2) unfolding p pal_block_hit .
  ultimately have "i mod 3 = j mod 3" and "i div 3 = j div 3" by simp_all
  then show ?thesis by (metis div_mult_mod_eq)
qed

lemma pal_block_below_buttons:
  assumes "collidepoint (pal_block off (i, c)) p"
  shows "\<not> collidepoint (Rect x 0 SIZE SIZE) p"
proof -
  obtain px py where p: "p = (px, py)" by (cases p)
  have a: "SIZE \<le> int (i div 3 + 1) * SIZE" using SIZE_pos by simp
  have b: "int (i div 3 + 1) * SIZE \<le> py"
    using assms unfolding p pal_block.simps Block_def collidepoint.simps by simp
  from a b have "SIZE \<le> py" by linarith
  then show ?thesis by (simp add: p Rect_def)
qed

lemma length_palette_layout [simp]: "length (palette_layout off cs) = length cs"
  by (simp add: palette_layout_def)

lemma palette_layout_nth [simp]:
  "i < length cs \<Longrightarrow> palette_layout off cs ! i = pal_block off (i, cs ! i)"
  by (simp add: palette_layout_def nth_enumerate_eq)

lemma palette_layout_snoc:
  "palette_layout off (cs @ [c]) = palette_layout off cs @ [pal_block off (length cs, c)]"
  by (simp add: palette_layout_def enumerate_append_eq)

lemma palette_layout_upt:
  "palette_layout off cs = map (\<lambda>i. pal_block off (i, cs ! i)) [0..<length cs]"
  by (rule nth_equalityI) (simp_all del: pal_block.simps)

lemma set_palette_layout:
  "set (palette_layout off cs) = (\<lambda>i. pal_block off (i, cs ! i)) ` {..<length cs}"
  by (simp add: palette_layout_upt atLeast0LessThan del: pal_block.simps)

lemma in_palette_layout_hit:
  assumes "b \<in> set (palette_layout off cs)" and "collidepoint b pos"
    and "i < length cs" and "collidepoint (pal_block off (i, cs ! i)) pos"
  shows "b = pal_block off (i, cs ! i)"
proof -
  obtain k where k: "k < length cs" "b = pal_block off (k, cs ! k)"
    using assms(1) by (auto simp: set_palette_layout simp del: pal_block.simps)
  with assms(2,4) have "k = i" using pal_block_unique by blast
  with k show ?thesis by simp
qed

section \<open>The selection loop\<close>

lemma select_blocks_last:
  "select_blocks bs idx pos sel =
     (case find (\<lambda>(j, b). collidepoint b pos) (rev (enumerate idx bs)) of
        None \<Rightarrow> sel | Some (j, b) \<Rightarrow> j)"
  by (induction bs arbitrary: idx sel) (auto simp: find_append split: option.splits)

lemma select_blocks_cases:
  "(select_blocks bs 0 pos sel = sel \<and> (\<forall>b \<in> set bs. \<not> collidepoint b pos)) \<or>
   (select_blocks bs 0 pos sel < length bs \<and> collidepoint (bs ! select_blocks bs 0 pos sel) pos)"
proof (cases "find (\<lambda>(j, b). collidepoint b pos) (rev (enumerate 0 bs))")
  case None
  then have "\<forall>b \<in> set bs. \<not> collidepoint b pos"
    by (auto simp: find_None_iff in_set_conv_nth nth_enumerate_eq
        dest!: spec [where x = "(_, bs ! _)"])
  with None show ?thesis by (simp add: select_blocks_last)
next
  case (Some jb)
  obtain j b where jb: "jb = (j, b)" by (cases jb)
  with Some have "(j, b) \<in> set (enumerate 0 bs)" and "collidepoint b pos"
    using find_SomeD by fastforce+
  then have "j < length bs" "bs ! j = b" "collidepoint b pos"
    by (auto simp: in_set_enumerate_eq)
  with Some jb show ?thesis by (simp add: select_blocks_last)
qed


lemma select_blocks_snoc:
  "select_blocks (bs @ [b]) idx pos sel =
     (if collidepoint b pos then idx + length bs else select_blocks bs idx pos sel)"
  by (induction bs arbitrary: idx sel) auto

section \<open>Invariant\<close>

lemma palette_fields [simp]:
  "pblocks (bind_canvas p) = pblocks p" "colors (bind_canvas p) = colors p"
  "offset (bind_canvas p) = offset p" "selected (bind_canvas p) = selected p"
  "button_add (bind_canvas p) = button_add p" "button_clear (bind_canvas p) = button_clear p"
  "canvas_bound (bind_canvas p) = True" "color_selected (bind_canvas p) = color_selected p"
  by (simp_all add: bind_canvas_def)

lemma Palette_blocks: "pblocks (Palette off cs) = palette_layout off cs"
  by (simp add: Palette_def init_palette_blocks)

lemma Palette_fields [simp]:
  "colors (Palette off cs) = cs" "offset (Palette off cs) = off" "selected (Palette off cs) = 0"
  "button_add (Palette off cs) = Rect off 0 SIZE SIZE"
  "button_clear (Palette off cs) = Rect (off + SIZE) 0 SIZE SIZE"
  "canvas_bound (Palette off cs) = False" "color_selected (Palette off cs) = (255, 213, 0)"
  by (simp_all add: Palette_def)

lemma palette_inv_Palette:
  "cs \<noteq> [] \<Longrightarrow> palette_inv (bind_canvas (Palette off cs))"
  by (simp add: palette_inv_def Palette_blocks)

lemma add_color_blocks:
  "pblocks (add_color p c) = pblocks p @ palette_layout (offset p) (colors p @ [c])"
  by (simp add: add_color_def init_palette_blocks)

lemma add_color_fields [simp]:
  "colors (add_color p c) = colors p @ [c]" "offset (add_color p c) = offset p"
  "selected (add_color p c) = selected p" "button_add (add_color p c) = button_add p"
  "button_clear (add_color p c) = button_clear p" "canvas_bound (add_color p c) = canvas_bound p"
  "color_selected (add_color p c) = color_selected p"
  by (simp_all add: add_color_def)

lemma add_color_inv: "palette_inv p \<Longrightarrow> palette_inv (add_color p c)"
  by (auto simp: palette_inv_def add_color_blocks palette_layout_snoc simp del: pal_block.simps)

lemma select_blocks_inv:
  "palette_inv p \<Longrightarrow> palette_inv (p\<lparr>selected := select_blocks (pblocks p) 0 pos (selected p)\<rparr>)"
  using select_blocks_cases [of "pblocks p" pos "selected p"] by (auto simp: palette_inv_def)

lemma select_inv:
  assumes "palette_inv p" and "select p cv u pos = Inr (p', cv', u')"
  shows "palette_inv p'"
  using assms add_color_inv [OF assms(1)] select_blocks_inv [OF assms(1), of pos]
  by (auto simp: select_def split: if_splits sum.splits option.splits prod.splits)

lemma select_bound:
  assumes "select p cv u pos = Inr (p', cv', u')"
  shows "canvas_bound p' = canvas_bound p"
  using assms by (auto simp: select_def split: if_splits sum.splits option.splits prod.splits)

lemma select_result:
  assumes "select p cv u pos = Inr (p', cv', u')"
  shows "(cv' = cv \<or> cv' = clear cv) \<and> offset p' = offset p \<and> canvas_bound p' = canvas_bound p \<and>
    length (file_answers u) \<le> Suc (length (file_answers u')) \<and>
    length (color_answers u) \<le> Suc (length (color_answers u')) \<and>
    length (ok_answers u) \<le> Suc (length (ok_answers u'))"
  using assms
  by (auto simp: select_def prompt_defs split: if_splits sum.splits option.splits prod.splits list.splits)

lemma select_error:
  "canvas_bound p \<Longrightarrow> select p cv u pos = Inl e \<Longrightarrow> e = Blocked"
  by (auto simp: select_def prompt_defs split: if_splits sum.splits option.splits prod.splits list.splits)

lemma select_progress:
  "canvas_bound p \<Longrightarrow> color_answers u \<noteq> [] \<Longrightarrow> ok_answers u \<noteq> [] \<Longrightarrow>
   \<exists>r. select p cv u pos = Inr r"
  by (auto simp: select_def prompt_defs neq_Nil_conv split: option.splits)

lemma palette_color_inv:
  assumes "palette_inv p"
  shows "\<exists>c \<in> set (colors p). palette_color p = Inr c"
proof -
  have sel: "selected p < length (pblocks p)" using assms by (simp add: palette_inv_def)
  then have "pblocks p ! selected p \<in> set (palette_layout (offset p) (colors p))"
    using assms by (auto simp: palette_inv_def)
  then obtain i where "i < length (colors p)" "pblocks p ! selected p = pal_block (offset p) (i, colors p ! i)"
    by (auto simp: set_palette_layout simp del: pal_block.simps)
  with sel show ?thesis by (auto simp: palette_color_def simp del: pal_block.simps)
qed

section \<open>Drawing the blocks\<close>

text \<open>After the block loop of \<open>draw\<close>, a pixel shows the last block that contains
  it: its outline colour if that block is the selected one and the pixel is on its
  outline, its fill colour otherwise.\<close>

lemma draw_blocks_fold_pixel:
  "fold (\<lambda>(idx, b) s. let s' = draw_rect s (color b) b
                      in if idx = sel then draw_rect_border s' hc b else s') (enumerate n bs) s0 p =
   (case find (\<lambda>(i, b). collidepoint b p) (rev (enumerate n bs)) of
      None \<Rightarrow> s0 p
    | Some (i, b) \<Rightarrow> if i = sel \<and> on_border b p then hc else color b)"
proof (induction bs rule: rev_induct)
  case Nil
  then show ?case by simp
next
  case (snoc b bs)
  then show ?case
    by (auto simp: enumerate_append_eq draw_rect_def draw_rect_border_def Let_def
        dest: on_border_collide split: option.splits)
qed

lemma draw_palette_blocks_pixel:
  "draw_palette_blocks p s q =
   (case find (\<lambda>(i, b). collidepoint b q) (rev (enumerate 0 (pblocks p))) of
      None \<Rightarrow> s q
    | Some (i, b) \<Rightarrow> if i = selected p \<and> on_border b q then color_selected p else color b)"
  unfolding draw_palette_blocks_def by (rule draw_blocks_fold_pixel)

lemma corner_on_border:
  "0 < rw b \<Longrightarrow> 0 < rh b \<Longrightarrow> on_border b (rx b, ry b)"
  by simp

text \<open>In a palette without duplicates, the only block containing a point of block
  \<open>j\<close> is block \<open>j\<close>: the last match of the drawing and selection loops is \<open>j\<close>.\<close>

lemma layout_find_point:
  assumes lay: "pblocks p = palette_layout (offset p) (colors p)" and j: "j < length (pblocks p)"
    and q: "collidepoint (pblocks p ! j) q"
  shows "find (\<lambda>(i, b). collidepoint b q) (rev (enumerate 0 (pblocks p))) = Some (j, pblocks p ! j)"
proof -
  let ?cs = "colors p" and ?off = "offset p"
  have jc: "j < length ?cs" using j lay by simp
  have b: "pblocks p ! j = pal_block ?off (j, ?cs ! j)" using jc lay by simp
  have hit: "(\<lambda>(i, b). collidepoint b q) (enumerate 0 (pblocks p) ! i) \<longleftrightarrow> i = j"
    if "i < length (enumerate 0 (pblocks p))" for i
  proof -
    have i: "i < length ?cs" using that lay by simp
    show ?thesis
      using i lay q b pal_block_unique [of ?off i "?cs ! i" q j "?cs ! j"]
      by (auto simp: nth_enumerate_eq simp del: pal_block.simps collidepoint.simps)
  qed
  show ?thesis
    using find_rev_unique_index [of j "enumerate 0 (pblocks p)"] hit j by (simp add: nth_enumerate_eq)
qed

section \<open>Behaviour of the palette\<close>

text \<open>C8. The layout loop of \<open>init_palette\<close> builds the reference layout: a new
  palette holds one block per colour, entry \<open>i\<close> in column \<open>i mod 3\<close> and screen
  row \<open>i div 3 + 1\<close>.\<close>

theorem Palette_layout: "pblocks (Palette off cs) = map (pal_block off) (enumerate 0 cs)"
  by (simp add: Palette_blocks palette_layout_def)

text \<open>C9. \<open>add_color\<close> appends one colour, but the blocks grow by a whole new
  layout: \<open>init_palette\<close> appends to \<open>self.blocks\<close> without emptying it, so
  every earlier block stays, followed by a block for every colour.\<close>

theorem add_color_duplicates:
  "colors (add_color p c) = colors p @ [c] \<and>
   length (pblocks (add_color p c)) = length (pblocks p) + length (colors p) + 1"
  by (simp add: add_color_blocks)

text \<open>C10. A click on the add button opens the colour dialog; a chosen colour is
  added, a cancelled dialog changes nothing; the canvas is untouched.\<close>

theorem select_add_button:
  assumes "collidepoint (button_add p) pos" and "color_answers u = a # as"
  shows "select p cv u pos =
    Inr (case a of None \<Rightarrow> p | Some c \<Rightarrow> add_color p c, cv, u\<lparr>color_answers := as\<rparr>)"
  using assms by (simp add: select_def prompt_color_def)

text \<open>C11. A click on the clear button (outside the add button) asks for confirmation
  and clears the bound canvas only on OK.\<close>

theorem select_clear_button:
  assumes "\<not> collidepoint (button_add p) pos" and "collidepoint (button_clear p) pos"
    and "canvas_bound p" and "ok_answers u = b # bs"
  shows "select p cv u pos = Inr (p, if b then clear cv else cv, u\<lparr>ok_answers := bs\<rparr>)"
  using assms by (simp add: select_def prompt_clear_def)

text \<open>C12. A click on the block of entry \<open>i\<close> selects a block whose colour is the
  colour of entry \<open>i\<close>; no dialog opens and the canvas is untouched.\<close>

theorem select_block_color:
  assumes inv: "palette_inv p" and i: "i < length (colors p)"
    and hit: "collidepoint (pal_block (offset p) (i, colors p ! i)) pos"
  shows "\<exists>p'. select p cv u pos = Inr (p', cv, u) \<and> palette_color p' = Inr (colors p ! i)"
proof -
  let ?s = "select_blocks (pblocks p) 0 pos (selected p)"
  have nb: "\<not> collidepoint (button_add p) pos" "\<not> collidepoint (button_clear p) pos"
    using inv pal_block_below_buttons [OF hit] by (simp_all add: palette_inv_def)
  have "pal_block (offset p) (i, colors p ! i) \<in> set (pblocks p)"
    using inv i by (simp add: palette_inv_def set_palette_layout del: pal_block.simps)
  then have "\<not> (\<forall>b \<in> set (pblocks p). \<not> collidepoint b pos)" using hit by blast
  then have s: "?s < length (pblocks p)" "collidepoint (pblocks p ! ?s) pos"
    using select_blocks_cases [of "pblocks p" pos "selected p"] by auto
  then have "pblocks p ! ?s \<in> set (palette_layout (offset p) (colors p))"
    using inv by (auto simp: palette_inv_def)
  then have "pblocks p ! ?s = pal_block (offset p) (i, colors p ! i)"
    using in_palette_layout_hit s(2) i hit by blast
  then show ?thesis
    using nb s by (simp add: select_def palette_color_def del: pal_block.simps)
qed

text \<open>C23. Without duplicate blocks (a palette as built by its constructor), \<open>draw\<close>
  outlines the selected entry: the corner pixel of the selected block shows
  \<open>color_selected\<close>.\<close>

theorem highlight_shown:
  assumes lay: "pblocks p = palette_layout (offset p) (colors p)" and sel: "selected p < length (pblocks p)"
  shows "draw_palette_blocks p s (rx (pblocks p ! selected p), ry (pblocks p ! selected p)) = color_selected p"
proof -
  let ?b = "pblocks p ! selected p"
  have "?b = pal_block (offset p) (selected p, colors p ! selected p)" using sel lay by simp
  then have bq: "on_border ?b (rx ?b, ry ?b)" by (simp add: Block_def)
  then show ?thesis
    using layout_find_point [OF lay sel on_border_collide [OF bq]]
    by (simp add: draw_palette_blocks_pixel del: on_border.simps)
qed

text \<open>C24. For every palette, adding a colour hides the outline of the selected entry:
  its duplicate, appended by \<open>add_color\<close>, is filled after the outline is drawn, so the
  corner pixel shows the entry's own colour.\<close>

theorem add_color_hides_outline:
  assumes inv: "palette_inv p"
  shows "draw_palette_blocks (add_color p c) s (rx (pblocks p ! selected p), ry (pblocks p ! selected p)) =
    color (pblocks p ! selected p)"
proof -
  let ?B = "pblocks p" and ?k = "selected p" and ?cs = "colors p" and ?off = "offset p"
  let ?L = "palette_layout ?off (?cs @ [c])"
  let ?q = "(rx (pblocks p ! selected p), ry (pblocks p ! selected p))"
  have sel: "?k < length ?B" using inv by (simp add: palette_inv_def)
  then have "?B ! ?k \<in> set (palette_layout ?off ?cs)" using inv by (auto simp: palette_inv_def)
  then obtain i where i: "i < length ?cs" and bi: "?B ! ?k = pal_block ?off (i, ?cs ! i)"
    by (auto simp: set_palette_layout simp del: pal_block.simps)
  have Li: "?L ! i = pal_block ?off (i, ?cs ! i)" using i by (simp add: nth_append del: pal_block.simps)
  have hq: "collidepoint (pal_block ?off (i, ?cs ! i)) ?q" by (simp add: bi Block_def)
  have hit: "(\<lambda>(j, b). collidepoint b ?q) (enumerate (length ?B) ?L ! j) \<longleftrightarrow> j = i"
    if "j < length (enumerate (length ?B) ?L)" for j
  proof -
    have j: "j < length (?cs @ [c])" using that by simp
    have "?L ! j = pal_block ?off (j, (?cs @ [c]) ! j)" using j by (simp del: pal_block.simps)
    then show ?thesis
      using j i hq Li pal_block_unique [of ?off j "(?cs @ [c]) ! j" ?q i "?cs ! i"]
      by (auto simp: nth_enumerate_eq simp del: pal_block.simps collidepoint.simps)
  qed
  have f: "find (\<lambda>(j, b). collidepoint b ?q) (rev (enumerate (length ?B) ?L)) =
      Some (enumerate (length ?B) ?L ! i)"
    using find_rev_unique_index [of i "enumerate (length ?B) ?L"] hit i by simp
  have "find (\<lambda>(j, b). collidepoint b ?q) (rev (enumerate 0 (pblocks (add_color p c)))) =
      Some (length ?B + i, pal_block ?off (i, ?cs ! i))"
    using f i Li by (simp add: add_color_blocks enumerate_append_eq find_append nth_enumerate_eq
        del: pal_block.simps)
  then show ?thesis
    using sel bi by (simp add: draw_palette_blocks_pixel del: pal_block.simps on_border.simps)
qed

text \<open>C33. Layout and selection are inverse: in a palette without duplicates (as the
  constructor builds it), a click on any pixel of the block drawn for entry \<open>j\<close>
  selects index \<open>j\<close>.\<close>

theorem click_selects_entry:
  assumes "pblocks p = palette_layout (offset p) (colors p)" and "j < length (pblocks p)"
    and "collidepoint (pblocks p ! j) q"
  shows "select_blocks (pblocks p) 0 q sel = j"
  using layout_find_point [OF assms] by (simp add: select_blocks_last)

text \<open>C25. The selection loop refines the specification "the last block that contains
  the point, or the old selection if none does".\<close>

theorem select_blocks_last_match:
  "select_blocks bs 0 pos sel =
     (if \<exists>j < length bs. collidepoint (bs ! j) pos
      then GREATEST j. j < length bs \<and> collidepoint (bs ! j) pos else sel)"
proof (induction bs rule: rev_induct)
  case Nil
  then show ?case by simp
next
  case (snoc b bs)
  show ?case
  proof (cases "collidepoint b pos")
    case True
    have "(GREATEST j. j < length (bs @ [b]) \<and> collidepoint ((bs @ [b]) ! j) pos) = length bs"
      using True by (intro Greatest_equality) (auto simp: nth_append)
    with True show ?thesis by (auto simp: select_blocks_snoc nth_append)
  next
    case False
    have eq: "(j < length (bs @ [b]) \<and> collidepoint ((bs @ [b]) ! j) pos) \<longleftrightarrow>
        (j < length bs \<and> collidepoint (bs ! j) pos)" for j
      using False by (auto simp: nth_append less_Suc_eq)
    show ?thesis using False snoc by (simp only: select_blocks_snoc eq if_False)
  qed
qed


section \<open>Witnesses at the initial palette\<close>

lemma init_colors_ne: "init_colors \<noteq> []"
  by (simp add: init_colors_def)

theorem select_add_button_witness:
  "collidepoint (button_add (bind_canvas (Palette (window_width - 200) init_colors))) (830, 5) \<and>
   color_answers \<lparr>file_answers = [], color_answers = [Some (1, 2, 3)], ok_answers = []\<rparr> = [Some (1, 2, 3)] \<and>
   select (bind_canvas (Palette (window_width - 200) init_colors)) Canvas
     \<lparr>file_answers = [], color_answers = [Some (1, 2, 3)], ok_answers = []\<rparr> (830, 5) =
   Inr (add_color (bind_canvas (Palette (window_width - 200) init_colors)) (1, 2, 3), Canvas,
        \<lparr>file_answers = [], color_answers = [], ok_answers = []\<rparr>)"
proof -
  have h: "collidepoint (button_add (bind_canvas (Palette (window_width - 200) init_colors))) (830, 5)"
    by (simp add: Rect_def window_width_def SIZE_def)
  show ?thesis
    using h select_add_button [OF h, of "\<lparr>file_answers = [], color_answers = [Some (1, 2, 3)], ok_answers = []\<rparr>"
        "Some (1, 2, 3)" "[]" Canvas]
    by simp
qed

theorem select_clear_button_witness:
  "\<not> collidepoint (button_add (bind_canvas (Palette (window_width - 200) init_colors))) (860, 5) \<and>
   collidepoint (button_clear (bind_canvas (Palette (window_width - 200) init_colors))) (860, 5) \<and>
   canvas_bound (bind_canvas (Palette (window_width - 200) init_colors)) \<and>
   select (bind_canvas (Palette (window_width - 200) init_colors)) Canvas
     \<lparr>file_answers = [], color_answers = [], ok_answers = [True]\<rparr> (860, 5) =
   Inr (bind_canvas (Palette (window_width - 200) init_colors), clear Canvas,
        \<lparr>file_answers = [], color_answers = [], ok_answers = []\<rparr>)"
proof -
  have h1: "\<not> collidepoint (button_add (bind_canvas (Palette (window_width - 200) init_colors))) (860, 5)"
    and h2: "collidepoint (button_clear (bind_canvas (Palette (window_width - 200) init_colors))) (860, 5)"
    and h3: "canvas_bound (bind_canvas (Palette (window_width - 200) init_colors))"
    by (simp_all add: Rect_def window_width_def SIZE_def)
  show ?thesis
    using h1 h2 h3 select_clear_button [OF h1 h2 h3,
        of "\<lparr>file_answers = [], color_answers = [], ok_answers = [True]\<rparr>" True "[]" Canvas]
    by simp
qed

theorem select_block_color_witness:
  "palette_inv (bind_canvas (Palette (window_width - 200) init_colors)) \<and>
   2 < length (colors (bind_canvas (Palette (window_width - 200) init_colors))) \<and>
   (\<exists>p'. select (bind_canvas (Palette (window_width - 200) init_colors)) Canvas
            \<lparr>file_answers = [], color_answers = [], ok_answers = []\<rparr> (890, 40) =
          Inr (p', Canvas, \<lparr>file_answers = [], color_answers = [], ok_answers = []\<rparr>) \<and>
          palette_color p' = Inr BLUE)"
proof -
  let ?p = "bind_canvas (Palette (window_width - 200) init_colors)"
  have inv: "palette_inv ?p" by (rule palette_inv_Palette [OF init_colors_ne])
  have i: "2 < length (colors ?p)" by (simp add: init_colors_def)
  have hit: "collidepoint (pal_block (offset ?p) (2, colors ?p ! 2)) (890, 40)"
    by (simp add: init_colors_def window_width_def SIZE_def Block_def)
  have c: "colors ?p ! 2 = BLUE" by (simp add: init_colors_def)
  show ?thesis
    using inv i select_block_color [OF inv i hit, of Canvas "\<lparr>file_answers = [], color_answers = [], ok_answers = []\<rparr>"]
    unfolding c by simp
qed

theorem highlight_shown_witness:
  "pblocks (bind_canvas (Palette (window_width - 200) init_colors)) =
     palette_layout (offset (bind_canvas (Palette (window_width - 200) init_colors)))
       (colors (bind_canvas (Palette (window_width - 200) init_colors))) \<and>
   selected (bind_canvas (Palette (window_width - 200) init_colors)) <
     length (pblocks (bind_canvas (Palette (window_width - 200) init_colors))) \<and>
   draw_palette_blocks (bind_canvas (Palette (window_width - 200) init_colors)) (\<lambda>_. BLACK) (824, 32) =
     (255, 213, 0)"
  using highlight_shown [of "bind_canvas (Palette (window_width - 200) init_colors)" "\<lambda>_. BLACK"]
  by (simp add: Palette_blocks init_colors_def window_width_def SIZE_def Block_def)

theorem add_color_hides_outline_witness:
  "palette_inv (bind_canvas (Palette (window_width - 200) init_colors)) \<and>
   draw_palette_blocks (add_color (bind_canvas (Palette (window_width - 200) init_colors)) GREEN)
     (\<lambda>_. BLACK) (824, 32) = RED"
  using add_color_hides_outline [of "bind_canvas (Palette (window_width - 200) init_colors)" GREEN "\<lambda>_. BLACK"]
    palette_inv_Palette [OF init_colors_ne]
  by (simp add: Palette_blocks init_colors_def window_width_def SIZE_def Block_def)


theorem click_selects_entry_witness:
  "pblocks (Palette (window_width - 200) init_colors) =
     palette_layout (offset (Palette (window_width - 200) init_colors)) (colors (Palette (window_width - 200) init_colors)) \<and>
   4 < length (pblocks (Palette (window_width - 200) init_colors)) \<and>
   collidepoint (pblocks (Palette (window_width - 200) init_colors) ! 4) (870, 70) \<and>
   select_blocks (pblocks (Palette (window_width - 200) init_colors)) 0 (870, 70) 0 = 4"
  using click_selects_entry [of "Palette (window_width - 200) init_colors" 4 "(870, 70)" 0]
  by (simp add: Palette_blocks init_colors_def window_width_def SIZE_def Block_def)

end
