(* ===== verification/App.thy ===== *)
theory App
  imports Palette
begin

text \<open>
  The main program of \<^verbatim>\<open>src/taint.py\<close> (lines 189-230): the canvas and the palette
  built at start-up, and the \<open>while run\<close> loop. One iteration (a frame) handles the
  pending events in order, then paints at the pointer if the left button is held over
  the canvas, then re-renders the canvas. Events carry what the loop reads while handling
  them: the key and whether Ctrl is held (\<open>pygame.key.get_mods() & KMOD_CTRL\<close>), or the
  mouse button and position. The window (screen fill, palette drawing, blit) has no effect on the program's
  state; it is modelled in \<open>Screen\<close>.
  The loop is a deterministic function over a list of frame inputs and, with the inputs
  and the user's answers left open, a step relation whose reachable states are the
  states the program can be in.
\<close>

section \<open>Events, frame inputs and the program state\<close>

datatype key = K_q | K_s | K_g | K_other nat

datatype event =
    QUIT
  | KEYDOWN key bool
  | MOUSEBUTTONDOWN nat point
  | OTHER_EVENT

record frame_input =
  events :: "event list"
  mouse_left :: bool
  mouse_pos :: point

record app =
  canvas :: canvas
  palette :: palette
  run :: bool
  saved :: "(string \<times> surface) list"

definition BUTTON_LEFT :: nat where
  "BUTTON_LEFT = 1"

section \<open>One frame\<close>

definition handle_event :: "user \<Rightarrow> app \<Rightarrow> event \<Rightarrow> error + (user \<times> app)" where
  "handle_event u s ev =
     (case ev of
        QUIT \<Rightarrow> Inr (u, s\<lparr>run := False\<rparr>)
      | KEYDOWN k ctrl \<Rightarrow>
          if k = K_q \<and> ctrl then Inr (u, s\<lparr>run := False\<rparr>)
          else if k = K_s \<and> ctrl then
            (case prompt_file u of
               Inl e \<Rightarrow> Inl e
             | Inr (f, u') \<Rightarrow>
                 Inr (u', if f \<noteq> [] then s\<lparr>saved := saved s @ [(f, surf (canvas s))]\<rparr> else s))
          else if k = K_g then Inr (u, s\<lparr>canvas := toggle_grid (canvas s)\<rparr>)
          else Inr (u, s)
      | MOUSEBUTTONDOWN b pos \<Rightarrow>
          if b = BUTTON_LEFT then
            (case select (palette s) (canvas s) u pos of
               Inl e \<Rightarrow> Inl e
             | Inr (p', cv', u') \<Rightarrow> Inr (u', s\<lparr>palette := p', canvas := cv'\<rparr>))
          else Inr (u, s)
      | OTHER_EVENT \<Rightarrow> Inr (u, s))"

fun handle_events :: "user \<Rightarrow> app \<Rightarrow> event list \<Rightarrow> error + (user \<times> app)" where
  "handle_events u s [] = Inr (u, s)"
| "handle_events u s (ev # evs) =
     (case handle_event u s ev of Inl e \<Rightarrow> Inl e | Inr (u', s') \<Rightarrow> handle_events u' s' evs)"

text \<open>\<open>palette.color\<close> is read only when the button is held over the canvas.\<close>

definition mouse_paint :: "frame_input \<Rightarrow> app \<Rightarrow> error + app" where
  "mouse_paint fi s =
     (if mouse_left fi \<and> collidepoint get_rect (mouse_pos fi) then
        (case palette_color (palette s) of
           Inl e \<Rightarrow> Inl e
         | Inr c \<Rightarrow> Inr (s\<lparr>canvas := paint (canvas s) (mouse_pos fi) c\<rparr>))
      else Inr s)"

definition frame :: "user \<Rightarrow> frame_input \<Rightarrow> app \<Rightarrow> error + (user \<times> app)" where
  "frame u fi s =
     (case handle_events u s (events fi) of
        Inl e \<Rightarrow> Inl e
      | Inr (u', s') \<Rightarrow>
          (case mouse_paint fi s' of
             Inl e \<Rightarrow> Inl e
           | Inr s'' \<Rightarrow> Inr (u', s''\<lparr>canvas := update (canvas s'')\<rparr>)))"

section \<open>The loop\<close>

text \<open>\<open>while run\<close> over the inputs of successive frames; the list ends the
  observation, not the program.\<close>

fun main_loop :: "user \<Rightarrow> frame_input list \<Rightarrow> app \<Rightarrow> error + (user \<times> app)" where
  "main_loop u [] s = Inr (u, s)"
| "main_loop u (fi # fis) s =
     (if run s then
        (case frame u fi s of Inl e \<Rightarrow> Inl e | Inr (u', s') \<Rightarrow> main_loop u' fis s')
      else Inr (u, s))"

definition app_init :: app where
  "app_init =
     \<lparr>canvas = Canvas, palette = bind_canvas (Palette (window_width - 200) init_colors),
      run = True, saved = []\<rparr>"

text \<open>A step: one frame, for any frame input and any answers of the user.\<close>

inductive app_step :: "app \<Rightarrow> app \<Rightarrow> bool" where
  frame_step: "run s \<Longrightarrow> frame u fi s = Inr (u', s') \<Longrightarrow> app_step s s'"

inductive reachable :: "app \<Rightarrow> bool" where
  init: "reachable app_init"
| step: "reachable s \<Longrightarrow> app_step s s' \<Longrightarrow> reachable s'"

inductive_cases app_stepE: "app_step s s'"

section \<open>Invariant of the program state\<close>

definition app_inv :: "app \<Rightarrow> bool" where
  "app_inv s \<longleftrightarrow>
     canvas_inv (canvas s) \<and> palette_inv (palette s) \<and> canvas_bound (palette s) \<and>
     offset (palette s) = window_width - 200"

text \<open>Enough answers for \<open>n\<close> dialogs of each kind.\<close>

definition answers_left :: "user \<Rightarrow> nat \<Rightarrow> bool" where
  "answers_left u n \<longleftrightarrow>
     n \<le> length (file_answers u) \<and> n \<le> length (color_answers u) \<and> n \<le> length (ok_answers u)"

text \<open>A handler consumes at most one answer of each kind.\<close>

definition uses_one :: "user \<Rightarrow> user \<Rightarrow> bool" where
  "uses_one u u' \<longleftrightarrow>
     length (file_answers u) \<le> Suc (length (file_answers u')) \<and>
     length (color_answers u) \<le> Suc (length (color_answers u')) \<and>
     length (ok_answers u) \<le> Suc (length (ok_answers u'))"

text \<open>The events whose handling opens a dialog for which the user has no answer left.\<close>

definition blocks_on :: "user \<Rightarrow> palette \<Rightarrow> event \<Rightarrow> bool" where
  "blocks_on u p e =
     (case e of
        KEYDOWN k ctrl \<Rightarrow> k = K_s \<and> ctrl \<and> file_answers u = []
      | MOUSEBUTTONDOWN b pos \<Rightarrow>
          b = BUTTON_LEFT \<and>
          (if collidepoint (button_add p) pos then color_answers u = []
           else collidepoint (button_clear p) pos \<and> ok_answers u = [])
      | _ \<Rightarrow> False)"

text \<open>The colours the colour dialog returned, in order, cancelled dialogs left out.\<close>

definition chosen :: "color option list \<Rightarrow> color list" where
  "chosen as = concat (map (\<lambda>a. case a of None \<Rightarrow> [] | Some c \<Rightarrow> [c]) as)"

text \<open>Palette colours change only by appending the colours the dialog returned.\<close>

definition adds_chosen :: "user \<Rightarrow> color list \<Rightarrow> user \<Rightarrow> color list \<Rightarrow> bool" where
  "adds_chosen u cs u' cs' \<longleftrightarrow>
     (\<exists>n. cs' = cs @ chosen (take n (color_answers u)) \<and> color_answers u' = drop n (color_answers u))"

section \<open>Invariant proofs\<close>

lemma answers_left_uses_one:
  "answers_left u (Suc n) \<Longrightarrow> uses_one u u' \<Longrightarrow> answers_left u' n"
  by (simp add: answers_left_def uses_one_def)

lemma uses_one_refl [simp]: "uses_one u u"
  by (simp add: uses_one_def)

lemma app_inv_init: "app_inv app_init"
  by (simp add: app_inv_def app_init_def Canvas_inv palette_inv_Palette init_colors_ne)

lemma app_inv_simps [simp]:
  "app_inv (s\<lparr>run := b\<rparr>) = app_inv s" "app_inv (s\<lparr>saved := x\<rparr>) = app_inv s"
  by (simp_all add: app_inv_def)

lemma handle_event_step:
  assumes inv: "app_inv s" and ev: "handle_event u s e = Inr (u', s')"
  shows "app_inv s' \<and> (run s' \<longrightarrow> run s) \<and> uses_one u u'"
proof (cases e)
  case (KEYDOWN k ctrl)
  then show ?thesis
    using inv ev toggle_grid_inv
    by (auto simp: handle_event_def prompt_file_def uses_one_def app_inv_def
        split: if_splits list.splits)
next
  case (MOUSEBUTTONDOWN b pos)
  show ?thesis
  proof (cases "b = BUTTON_LEFT")
    case True
    then obtain p' cv' where sel: "select (palette s) (canvas s) u pos = Inr (p', cv', u')"
      and s': "s' = s\<lparr>palette := p', canvas := cv'\<rparr>"
      using ev MOUSEBUTTONDOWN by (auto simp: handle_event_def split: sum.splits prod.splits)
    have "palette_inv p'" using select_inv [OF _ sel] inv by (simp add: app_inv_def)
    moreover have "canvas_inv cv'" using select_result [OF sel] inv clear_inv
      by (auto simp: app_inv_def)
    ultimately show ?thesis
      using select_result [OF sel] inv s' by (auto simp: app_inv_def uses_one_def)
  next
    case False
    then show ?thesis using ev MOUSEBUTTONDOWN inv by (simp add: handle_event_def)
  qed
qed (use inv ev in \<open>auto simp: handle_event_def\<close>)

lemma handle_event_error:
  "app_inv s \<Longrightarrow> handle_event u s e = Inl err \<Longrightarrow> err = Blocked"
  using select_error
  by (auto simp: handle_event_def prompt_file_def app_inv_def
      split: event.splits if_splits list.splits sum.splits prod.splits)

lemma handle_event_progress:
  assumes "app_inv s" and "answers_left u 1"
  shows "\<exists>r. handle_event u s e = Inr r"
proof -
  have ne: "file_answers u \<noteq> []" "color_answers u \<noteq> []" "ok_answers u \<noteq> []"
    using assms(2) by (auto simp: answers_left_def)
  have b: "canvas_bound (palette s)" using assms(1) by (simp add: app_inv_def)
  show ?thesis
  proof (cases e)
    case (MOUSEBUTTONDOWN bt pos)
    obtain r where "select (palette s) (canvas s) u pos = Inr r"
      using select_progress [OF b ne(2,3)] by blast
    then show ?thesis using MOUSEBUTTONDOWN by (auto simp: handle_event_def split: prod.splits)
  qed (use ne(1) in \<open>auto simp: handle_event_def prompt_file_def neq_Nil_conv\<close>)
qed


lemma handle_events_step:
  "app_inv s \<Longrightarrow> handle_events u s evs = Inr (u', s') \<Longrightarrow> app_inv s' \<and> (run s' \<longrightarrow> run s)"
proof (induction evs arbitrary: u s)
  case Nil
  then show ?case by simp
next
  case (Cons e evs)
  then obtain u1 s1 where h: "handle_event u s e = Inr (u1, s1)"
    and r: "handle_events u1 s1 evs = Inr (u', s')"
    by (auto split: sum.splits prod.splits)
  with handle_event_step [OF Cons.prems(1) h] Cons.IH show ?case by blast
qed

lemma handle_events_error:
  "app_inv s \<Longrightarrow> handle_events u s evs = Inl err \<Longrightarrow> err = Blocked"
proof (induction evs arbitrary: u s)
  case (Cons e evs)
  show ?case
  proof (cases "handle_event u s e")
    case (Inl x)
    with Cons.prems handle_event_error show ?thesis by auto
  next
    case (Inr r)
    then obtain u1 s1 where h: "handle_event u s e = Inr (u1, s1)" by (cases r) auto
    with Cons.prems have "handle_events u1 s1 evs = Inl err" by simp
    with Cons.IH handle_event_step [OF Cons.prems(1) h] show ?thesis by blast
  qed
qed simp

lemma handle_events_progress:
  "app_inv s \<Longrightarrow> answers_left u (length evs) \<Longrightarrow> \<exists>r. handle_events u s evs = Inr r"
proof (induction evs arbitrary: u s)
  case (Cons e evs)
  have "answers_left u 1" using Cons.prems(2) by (auto simp: answers_left_def)
  then obtain u1 s1 where h: "handle_event u s e = Inr (u1, s1)"
    using handle_event_progress [OF Cons.prems(1)] by fastforce
  note st = handle_event_step [OF Cons.prems(1) h]
  have "answers_left u1 (length evs)"
    using answers_left_uses_one Cons.prems(2) st by simp
  with st Cons.IH obtain r where "handle_events u1 s1 evs = Inr r" by blast
  with h show ?case by simp
qed simp

lemma mouse_paint_step:
  assumes "app_inv s"
  shows "\<exists>s'. mouse_paint fi s = Inr s' \<and> app_inv s' \<and> run s' = run s"
proof -
  have "palette_inv (palette s)" using assms by (simp add: app_inv_def)
  then obtain c where "palette_color (palette s) = Inr c"
    using palette_color_inv by blast
  then show ?thesis
    using assms paint_inv by (auto simp: mouse_paint_def app_inv_def)
qed

lemma frame_step_inv:
  assumes "app_inv s" and "frame u fi s = Inr (u', s')"
  shows "app_inv s' \<and> (run s' \<longrightarrow> run s)"
proof -
  obtain u1 s1 where h: "handle_events u s (events fi) = Inr (u1, s1)" and u1: "u1 = u'"
    using assms(2) by (auto simp: frame_def split: sum.splits prod.splits)
  note st = handle_events_step [OF assms(1) h]
  obtain s2 where m: "mouse_paint fi s1 = Inr s2" "app_inv s2" "run s2 = run s1"
    using mouse_paint_step st by blast
  then have "s' = s2\<lparr>canvas := update (canvas s2)\<rparr>"
    using assms(2) h by (simp add: frame_def)
  with m st show ?thesis using update_inv by (auto simp: app_inv_def)
qed

lemma frame_error:
  assumes "app_inv s" and "frame u fi s = Inl err"
  shows "err = Blocked"
proof (cases "handle_events u s (events fi)")
  case (Inl x)
  with assms handle_events_error show ?thesis by (auto simp: frame_def)
next
  case (Inr r)
  then obtain u1 s1 where h: "handle_events u s (events fi) = Inr (u1, s1)" by (cases r) auto
  obtain s2 where "mouse_paint fi s1 = Inr s2"
    using mouse_paint_step handle_events_step [OF assms(1) h] by blast
  with h assms(2) show ?thesis by (simp add: frame_def)
qed

lemma frame_progress:
  assumes "app_inv s" and "answers_left u (length (events fi))"
  shows "\<exists>u' s'. frame u fi s = Inr (u', s')"
proof -
  obtain u1 s1 where h: "handle_events u s (events fi) = Inr (u1, s1)"
    using handle_events_progress [OF assms] by fastforce
  obtain s2 where "mouse_paint fi s1 = Inr s2"
    using mouse_paint_step handle_events_step [OF assms(1) h] by blast
  with h show ?thesis by (simp add: frame_def)
qed

lemma reachable_app_inv: "reachable s \<Longrightarrow> app_inv s"
proof (induction rule: reachable.induct)
  case init
  show ?case by (rule app_inv_init)
next
  case (step s s')
  then show ?case by (auto elim: app_stepE dest: frame_step_inv)
qed


lemma handle_event_run:
  assumes "handle_event u s e = Inr (u', s')"
  shows "(run s' \<longrightarrow> run s) \<and> (e = QUIT \<longrightarrow> \<not> run s')"
  using assms
  by (auto simp: handle_event_def split: event.splits if_splits sum.splits prod.splits)

lemma handle_events_quit:
  "handle_events u s evs = Inr (u', s') \<Longrightarrow> (run s' \<longrightarrow> run s) \<and> (QUIT \<in> set evs \<longrightarrow> \<not> run s')"
proof (induction evs arbitrary: u s)
  case (Cons e evs)
  then obtain u1 s1 where h: "handle_event u s e = Inr (u1, s1)"
    and r: "handle_events u1 s1 evs = Inr (u', s')"
    by (auto split: sum.splits prod.splits)
  with handle_event_run [OF h] Cons.IH show ?case by auto
qed simp

lemma frame_quit:
  assumes "frame u fi s = Inr (u', s')" and "QUIT \<in> set (events fi)"
  shows "\<not> run s'"
proof -
  obtain u1 s1 s2 where h: "handle_events u s (events fi) = Inr (u1, s1)"
    and m: "mouse_paint fi s1 = Inr s2" and s': "s' = s2\<lparr>canvas := update (canvas s2)\<rparr>"
    using assms(1) by (auto simp: frame_def split: sum.splits prod.splits)
  have "run s2 = run s1" using m by (auto simp: mouse_paint_def split: if_splits sum.splits)
  with handle_events_quit [OF h] assms(2) s' show ?thesis by simp
qed

text \<open>Between frames the canvas surface is the render of the canvas's own blocks and grid
  flag: start-up ends with \<open>update()\<close>, and so does every frame.\<close>

lemma frame_renders: "frame u fi s = Inr (u', s') \<Longrightarrow> \<exists>cv. canvas s' = update cv"
  by (auto simp: frame_def split: sum.splits prod.splits)

lemma reachable_rendered: "reachable s \<Longrightarrow> surf (canvas s) = surf (update (canvas s))"
proof (induction rule: reachable.induct)
  case init
  show ?case by (simp add: app_init_def Canvas_def)
next
  case (step s s')
  then show ?case by (auto elim!: app_stepE dest!: frame_renders)
qed

text \<open>Event handlers never render: the surface stays, and Ctrl+S appends that surface.\<close>

lemma handle_event_surf:
  assumes "handle_event u s e = Inr (u', s')"
  shows "surf (canvas s') = surf (canvas s) \<and>
    (\<exists>new. saved s' = saved s @ new \<and> (\<forall>x \<in> set new. snd x = surf (canvas s)))"
proof (cases "\<exists>pos. e = MOUSEBUTTONDOWN BUTTON_LEFT pos")
  case True
  then obtain pos p' cv' where sel: "select (palette s) (canvas s) u pos = Inr (p', cv', u')"
    and s': "s' = s\<lparr>palette := p', canvas := cv'\<rparr>"
    using assms by (auto simp: handle_event_def split: sum.splits prod.splits)
  then show ?thesis using select_result [OF sel] by (auto simp: clear_def)
next
  case False
  then show ?thesis using assms
    by (auto simp: handle_event_def prompt_file_def toggle_grid_def
        split: event.splits if_splits list.splits)
qed

lemma handle_events_surf:
  "handle_events u s evs = Inr (u', s') \<Longrightarrow> surf (canvas s') = surf (canvas s) \<and>
     (\<exists>new. saved s' = saved s @ new \<and> (\<forall>x \<in> set new. snd x = surf (canvas s)))"
proof (induction evs arbitrary: u s)
  case (Cons e evs)
  then obtain u1 s1 where h: "handle_event u s e = Inr (u1, s1)"
    and r: "handle_events u1 s1 evs = Inr (u', s')"
    by (auto split: sum.splits prod.splits)
  from handle_event_surf [OF h] Cons.IH [OF r] show ?case by force
qed simp

lemma handle_event_blocks:
  assumes "app_inv s"
  shows "(\<exists>err. handle_event u s e = Inl err) \<longleftrightarrow> blocks_on u (palette s) e"
  using assms
  by (cases e) (auto simp: handle_event_def select_def prompt_defs blocks_on_def app_inv_def
      split: list.splits sum.splits prod.splits if_splits)


lemma chosen_append [simp]: "chosen (xs @ ys) = chosen xs @ chosen ys"
  by (simp add: chosen_def)

lemma adds_chosen_same: "color_answers u' = color_answers u \<Longrightarrow> adds_chosen u cs u' cs"
  unfolding adds_chosen_def by (rule exI [of _ 0]) (simp add: chosen_def)

lemma adds_chosen_trans:
  assumes "adds_chosen u cs u1 cs1" and "adds_chosen u1 cs1 u2 cs2"
  shows "adds_chosen u cs u2 cs2"
proof -
  obtain n where n: "cs1 = cs @ chosen (take n (color_answers u))" "color_answers u1 = drop n (color_answers u)"
    using assms(1) by (auto simp: adds_chosen_def)
  obtain m where m: "cs2 = cs1 @ chosen (take m (color_answers u1))" "color_answers u2 = drop m (color_answers u1)"
    using assms(2) by (auto simp: adds_chosen_def)
  have "cs2 = cs @ chosen (take (n + m) (color_answers u))" using n m by (simp add: take_add)
  moreover have "color_answers u2 = drop (n + m) (color_answers u)" using n m by (simp add: add.commute)
  ultimately show ?thesis unfolding adds_chosen_def by blast
qed

lemma select_adds_chosen:
  assumes "select p cv u pos = Inr (p', cv', u')"
  shows "adds_chosen u (colors p) u' (colors p')"
proof (cases "collidepoint (button_add p) pos")
  case True
  then obtain a as where a: "color_answers u = a # as" and u': "u' = u\<lparr>color_answers := as\<rparr>"
    and p': "p' = (case a of None \<Rightarrow> p | Some c \<Rightarrow> add_color p c)"
    using assms by (auto simp: select_def prompt_color_def split: list.splits)
  show ?thesis unfolding adds_chosen_def
    by (rule exI [of _ 1]) (cases a, simp_all add: a u' p' chosen_def)
next
  case False
  then have "colors p' = colors p" "color_answers u' = color_answers u"
    using assms by (auto simp: select_def prompt_clear_def split: list.splits if_splits)
  then show ?thesis using adds_chosen_same by metis
qed

lemma handle_event_adds_chosen:
  "handle_event u s e = Inr (u', s') \<Longrightarrow> adds_chosen u (colors (palette s)) u' (colors (palette s'))"
  using select_adds_chosen adds_chosen_same
  by (auto simp: handle_event_def prompt_file_def split: event.splits if_splits sum.splits list.splits)

lemma handle_events_adds_chosen:
  "handle_events u s evs = Inr (u', s') \<Longrightarrow> adds_chosen u (colors (palette s)) u' (colors (palette s'))"
proof (induction evs arbitrary: u s)
  case Nil
  then show ?case by (simp add: adds_chosen_same)
next
  case (Cons e evs)
  then obtain u1 s1 where h: "handle_event u s e = Inr (u1, s1)"
    and r: "handle_events u1 s1 evs = Inr (u', s')"
    by (auto split: sum.splits prod.splits)
  from adds_chosen_trans [OF handle_event_adds_chosen [OF h] Cons.IH [OF r]] show ?case .
qed

lemma frame_adds_chosen:
  assumes "frame u fi s = Inr (u', s')"
  shows "adds_chosen u (colors (palette s)) u' (colors (palette s'))"
proof -
  obtain s1 s2 where h: "handle_events u s (events fi) = Inr (u', s1)"
    and m: "mouse_paint fi s1 = Inr s2" and s': "s' = s2\<lparr>canvas := update (canvas s2)\<rparr>"
    using assms by (auto simp: frame_def split: sum.splits prod.splits)
  have "palette s2 = palette s1" using m by (auto simp: mouse_paint_def split: if_splits sum.splits)
  with handle_events_adds_chosen [OF h] s' show ?thesis by simp
qed

lemma main_loop_adds_chosen:
  "main_loop u fis s = Inr (u', s') \<Longrightarrow> adds_chosen u (colors (palette s)) u' (colors (palette s'))"
proof (induction fis arbitrary: u s)
  case Nil
  then show ?case by (simp add: adds_chosen_same)
next
  case (Cons fi fis)
  show ?case
  proof (cases "run s")
    case True
    with Cons.prems obtain u1 s1 where f: "frame u fi s = Inr (u1, s1)"
      and r: "main_loop u1 fis s1 = Inr (u', s')"
      by (auto split: sum.splits prod.splits)
    from adds_chosen_trans [OF frame_adds_chosen [OF f] Cons.IH [OF r]] show ?thesis .
  qed (use Cons.prems in \<open>auto simp: adds_chosen_same\<close>)
qed

text \<open>Only a quit event or Ctrl+Q clears \<open>run\<close>; nothing sets it again.\<close>

lemma handle_event_run_iff:
  "handle_event u s e = Inr (u', s') \<Longrightarrow> run s' = (run s \<and> e \<noteq> QUIT \<and> e \<noteq> KEYDOWN K_q True)"
  by (auto simp: handle_event_def select_def prompt_defs
      split: event.splits if_splits sum.splits prod.splits list.splits option.splits)

lemma handle_events_run_iff:
  "handle_events u s evs = Inr (u', s') \<Longrightarrow>
     run s' = (run s \<and> QUIT \<notin> set evs \<and> KEYDOWN K_q True \<notin> set evs)"
proof (induction evs arbitrary: u s)
  case (Cons e evs)
  then obtain u1 s1 where h: "handle_event u s e = Inr (u1, s1)"
    and r: "handle_events u1 s1 evs = Inr (u', s')"
    by (auto split: sum.splits prod.splits)
  with handle_event_run_iff [OF h] Cons.IH show ?case by auto
qed simp

text \<open>The executable loop stays within the step relation: every state it returns from a
  reachable state is reachable.\<close>

lemma main_loop_reachable:
  "main_loop u fis s = Inr (u', s') \<Longrightarrow> reachable s \<Longrightarrow> reachable s'"
proof (induction fis arbitrary: u s)
  case Nil
  then show ?case by simp
next
  case (Cons fi fis)
  show ?case
  proof (cases "run s")
    case True
    with Cons.prems obtain u1 s1 where f: "frame u fi s = Inr (u1, s1)"
      and r: "main_loop u1 fis s1 = Inr (u', s')"
      by (auto split: sum.splits prod.splits)
    have "reachable s1" using Cons.prems(2) True f by (blast intro: reachable.step app_step.intros)
    with r show ?thesis by (rule Cons.IH)
  next
    case False
    with Cons.prems show ?thesis by simp
  qed
qed


section \<open>Properties of the program\<close>

text \<open>C13. In every state the program can reach, the canvas has exactly \<open>N * N\<close>
  blocks, tiling it in their fixed places, and the palette's selected index is a valid
  index into its blocks.\<close>

theorem reachable_state_ok:
  assumes "reachable s"
  shows "length (cblocks (canvas s)) = N * N \<and>
    map rect_of (cblocks (canvas s)) = map grid_rect [0..<N * N] \<and>
    selected (palette s) < length (pblocks (palette s))"
  using reachable_app_inv [OF assms] length_cblocks
  by (auto simp: app_inv_def canvas_inv_def palette_inv_def)

text \<open>C14. In a reachable state a frame fails only by a dialog left unanswered:
  \<open>palette.color\<close> never raises \<open>IndexError\<close> and \<open>self.canvas\<close> is always bound.\<close>

theorem frame_only_blocks:
  assumes "reachable s" and "frame u fi s = Inl e"
  shows "e = Blocked"
  using frame_error [OF reachable_app_inv [OF assms(1)] assms(2)] .

text \<open>C15. A frame of a reachable state returns when the user has an answer of each
  kind for every event of the frame.\<close>

theorem frame_returns:
  assumes "reachable s" and "answers_left u (length (events fi))"
  shows "\<exists>u' s'. frame u fi s = Inr (u', s')"
  using frame_progress [OF reachable_app_inv [OF assms(1)] assms(2)] .

text \<open>C16. A quit event ends the loop: once a frame that contains it has run, the
  remaining frames are never run.\<close>

theorem quit_ends_loop:
  assumes "run s" and "QUIT \<in> set (events fi)" and "frame u fi s = Inr (u', s')"
  shows "main_loop u (fi # fis) s = Inr (u', s')"
proof -
  have "\<not> run s'" using frame_quit [OF assms(3,2)] .
  with assms(1,3) show ?thesis by (cases fis) simp_all
qed



text \<open>C18. Ctrl+S saves the surface rendered at the end of the previous frame, not the
  current state: after G then Ctrl+S in one frame the saved image has no grid line at
  pixel (0, 5) while the canvas, rendered at the end of the frame, has one.\<close>

theorem save_is_stale:
  "\<exists>s'. frame \<lparr>file_answers = [''a.png''], color_answers = [], ok_answers = []\<rparr>
          \<lparr>events = [KEYDOWN K_g False, KEYDOWN K_s True], mouse_left = False, mouse_pos = (0, 0)\<rparr>
          app_init = Inr (\<lparr>file_answers = [], color_answers = [], ok_answers = []\<rparr>, s') \<and>
        saved s' = [(''a.png'', surf Canvas)] \<and>
        surf Canvas (0, 5) = WHITE \<and> surf (canvas s') (0, 5) = BLACK"
proof -
  have ic: "in_canvas (0, 5)"
    by (simp add: in_canvas_def get_rect_def Rect_def canvas_size_def N_def SIZE_def)
  have inv: "canvas_inv (toggle_grid Canvas)" by (rule toggle_grid_inv [OF Canvas_inv])
  have b: "surf (update (toggle_grid Canvas)) (0, 5) = BLACK"
    using update_pixel_eq [OF inv ic] by (simp add: show_grid_Canvas)
  show ?thesis
    using surf_Canvas_pixel [OF ic] b
    by (simp add: frame_def handle_event_def prompt_file_def mouse_paint_def app_init_def)
qed

text \<open>C21. The q key quits only with Ctrl held; otherwise it does nothing.\<close>

theorem quit_key_needs_ctrl:
  "handle_event u s (KEYDOWN K_q ctrl) = Inr (u, if ctrl then s\<lparr>run := False\<rparr> else s)"
  by (simp add: handle_event_def)

text \<open>C22. Dragging paints: in a reachable state, holding the left button over the
  canvas paints the block under the pointer with the palette's selected colour, which is
  one of the palette's colours.\<close>

theorem drag_paints_selected_color:
  assumes "reachable s" and "mouse_left fi" and "in_canvas (mouse_pos fi)"
  shows "\<exists>c \<in> set (colors (palette s)).
    palette_color (palette s) = Inr c \<and>
    mouse_paint fi s = Inr (s\<lparr>canvas := paint (canvas s) (mouse_pos fi) c\<rparr>)"
proof -
  have "palette_inv (palette s)" using reachable_app_inv [OF assms(1)] by (simp add: app_inv_def)
  then obtain c where "c \<in> set (colors (palette s))" "palette_color (palette s) = Inr c"
    using palette_color_inv by blast
  then show ?thesis using assms(2,3) by (auto simp: mouse_paint_def in_canvas_def)
qed

text \<open>C26. Between frames the canvas surface shows the canvas: in every reachable state
  a pixel of the canvas is black on a grid line when the grid is shown, and otherwise has
  the colour of the block under it.\<close>

theorem reachable_canvas_shows_blocks:
  assumes "reachable s" and "in_canvas (px, py)"
  shows "surf (canvas s) (px, py) =
    (if show_grid (canvas s) \<noteq> 0 \<and> (px mod SIZE = 0 \<or> py mod SIZE = 0) then BLACK
     else color (cblocks (canvas s) ! cell_index (px, py)))"
proof -
  have "canvas_inv (canvas s)" using reachable_app_inv [OF assms(1)] by (simp add: app_inv_def)
  with update_pixel_eq [OF this assms(2)] reachable_rendered [OF assms(1)] show ?thesis by simp
qed

text \<open>C27. An image saved while a frame's events are handled is the render made at the
  end of the previous frame: in a reachable state, every image the event handlers save is
  the render of the canvas as it was when the frame began, whatever the events did
  to the canvas before the save.\<close>

theorem saved_image_is_frame_start_render:
  assumes "reachable s" and "handle_events u s evs = Inr (u', s')"
  shows "\<exists>new. saved s' = saved s @ new \<and> (\<forall>x \<in> set new. snd x = surf (update (canvas s)))"
  using handle_events_surf [OF assms(2)] reachable_rendered [OF assms(1)] by simp


text \<open>C32. Error behaviour of an event: in a reachable state, handling an event fails
  exactly when it opens a dialog for which the user has no answer left (Ctrl+S, a click on
  the add button, a click on the clear button), and the failure is always that blocked
  dialog: no \<open>IndexError\<close> and no \<open>AttributeError\<close>.\<close>

theorem handle_event_fails_iff:
  assumes "reachable s"
  shows "(handle_event u s e = Inl Blocked \<longleftrightarrow> blocks_on u (palette s) e) \<and>
    (\<forall>err. handle_event u s e = Inl err \<longrightarrow> err = Blocked)"
proof -
  have inv: "app_inv s" by (rule reachable_app_inv [OF assms])
  have "\<forall>err. handle_event u s e = Inl err \<longrightarrow> err = Blocked" using handle_event_error [OF inv] by blast
  then show ?thesis using handle_event_blocks [OF inv, of u e] by auto
qed

text \<open>C34. The palette's colours are the history of the colour dialog: after any run of
  the loop from the start, the palette holds the five initial colours followed by the
  colours the user chose, in the order chosen, one for each colour dialog answered with a
  colour and none for a cancelled one; the answers used are a prefix of the user's.\<close>

theorem runs_palette_colors:
  assumes "main_loop u fis app_init = Inr (u', s')"
  shows "\<exists>n. colors (palette s') = init_colors @ chosen (take n (color_answers u)) \<and>
    color_answers u' = drop n (color_answers u)"
  using main_loop_adds_chosen [OF assms] by (simp add: adds_chosen_def app_init_def)

text \<open>C35. The run flag as a state machine: a frame started while running stops the
  program exactly when its events contain a quit event or Ctrl+Q; any other frame leaves it
  running.\<close>

theorem frame_stops_iff:
  assumes "run s" and "frame u fi s = Inr (u', s')"
  shows "\<not> run s' \<longleftrightarrow> QUIT \<in> set (events fi) \<or> KEYDOWN K_q True \<in> set (events fi)"
proof -
  obtain u1 s1 s2 where h: "handle_events u s (events fi) = Inr (u1, s1)"
    and m: "mouse_paint fi s1 = Inr s2" and s': "s' = s2\<lparr>canvas := update (canvas s2)\<rparr>"
    using assms(2) by (auto simp: frame_def split: sum.splits prod.splits)
  have "run s2 = run s1" using m by (auto simp: mouse_paint_def split: if_splits sum.splits)
  with handle_events_run_iff [OF h] assms(1) s' show ?thesis by simp
qed

section \<open>Witnesses at the start state\<close>

theorem reachable_state_ok_witness:
  "reachable app_init \<and> length (cblocks (canvas app_init)) = N * N \<and>
   map rect_of (cblocks (canvas app_init)) = map grid_rect [0..<N * N] \<and>
   selected (palette app_init) < length (pblocks (palette app_init))"
  using reachable_state_ok [OF reachable.init] reachable.init by simp

theorem frame_only_blocks_witness:
  "reachable app_init \<and>
   frame \<lparr>file_answers = [], color_answers = [], ok_answers = []\<rparr>
     \<lparr>events = [KEYDOWN K_s True], mouse_left = False, mouse_pos = (0, 0)\<rparr> app_init = Inl Blocked \<and>
   Blocked = Blocked"
proof -
  have f: "frame \<lparr>file_answers = [], color_answers = [], ok_answers = []\<rparr>
     \<lparr>events = [KEYDOWN K_s True], mouse_left = False, mouse_pos = (0, 0)\<rparr> app_init = Inl Blocked"
    by (simp add: frame_def handle_event_def prompt_file_def)
  show ?thesis using frame_only_blocks [OF reachable.init f] reachable.init f by simp
qed

theorem frame_returns_witness:
  "reachable app_init \<and> answers_left \<lparr>file_answers = [], color_answers = [], ok_answers = []\<rparr> 0 \<and>
   (\<exists>u' s'. frame \<lparr>file_answers = [], color_answers = [], ok_answers = []\<rparr>
      \<lparr>events = [], mouse_left = True, mouse_pos = (5, 5)\<rparr> app_init = Inr (u', s'))"
proof -
  have a: "answers_left \<lparr>file_answers = [], color_answers = [], ok_answers = []\<rparr>
      (length (events \<lparr>events = [], mouse_left = True, mouse_pos = (5, 5)\<rparr>))"
    by (simp add: answers_left_def)
  show ?thesis using frame_returns [OF reachable.init a] reachable.init a by simp
qed

theorem quit_ends_loop_witness:
  "run app_init \<and> QUIT \<in> set (events \<lparr>events = [QUIT], mouse_left = False, mouse_pos = (0, 0)\<rparr>) \<and>
   frame no_answers \<lparr>events = [QUIT], mouse_left = False, mouse_pos = (0, 0)\<rparr> app_init =
     Inr (no_answers, app_init\<lparr>canvas := update Canvas, run := False\<rparr>) \<and>
   main_loop no_answers [\<lparr>events = [QUIT], mouse_left = False, mouse_pos = (0, 0)\<rparr>,
                \<lparr>events = [KEYDOWN K_g False], mouse_left = False, mouse_pos = (0, 0)\<rparr>] app_init =
     Inr (no_answers, app_init\<lparr>canvas := update Canvas, run := False\<rparr>)"
proof -
  have r: "run app_init" by (simp add: app_init_def)
  have q: "QUIT \<in> set (events \<lparr>events = [QUIT], mouse_left = False, mouse_pos = (0, 0)\<rparr>)" by simp
  have f: "frame no_answers \<lparr>events = [QUIT], mouse_left = False, mouse_pos = (0, 0)\<rparr> app_init =
     Inr (no_answers, app_init\<lparr>canvas := update Canvas, run := False\<rparr>)"
    by (simp add: frame_def handle_event_def mouse_paint_def app_init_def)
  show ?thesis using quit_ends_loop [OF r q f] r q f by simp
qed

theorem drag_paints_selected_color_witness:
  "reachable app_init \<and> mouse_left \<lparr>events = [], mouse_left = True, mouse_pos = (5, 5)\<rparr> \<and>
   in_canvas (mouse_pos \<lparr>events = [], mouse_left = True, mouse_pos = (5, 5)\<rparr>) \<and>
   (\<exists>c \<in> set (colors (palette app_init)). palette_color (palette app_init) = Inr c \<and>
      mouse_paint \<lparr>events = [], mouse_left = True, mouse_pos = (5, 5)\<rparr> app_init =
        Inr (app_init\<lparr>canvas := paint (canvas app_init) (5, 5) c\<rparr>))"
proof -
  have m: "mouse_left \<lparr>events = [], mouse_left = True, mouse_pos = (5, 5)\<rparr>" by simp
  have i: "in_canvas (mouse_pos \<lparr>events = [], mouse_left = True, mouse_pos = (5, 5)\<rparr>)"
    by (simp add: in_canvas_def get_rect_def Rect_def canvas_size_def N_def SIZE_def)
  show ?thesis using drag_paints_selected_color [OF reachable.init m i] reachable.init m i by simp
qed


theorem reachable_canvas_shows_blocks_witness:
  "reachable app_init \<and> in_canvas (1, 1) \<and> surf (canvas app_init) (1, 1) = WHITE"
  using reachable_canvas_shows_blocks [OF reachable.init in_canvas_1_1] reachable.init in_canvas_1_1
  by (simp add: app_init_def show_grid_Canvas cblocks_Canvas_0 Block_def SIZE_def)

theorem saved_image_is_frame_start_render_witness:
  "reachable app_init \<and>
   handle_events \<lparr>file_answers = [''a.png''], color_answers = [], ok_answers = []\<rparr> app_init
     [KEYDOWN K_g False, KEYDOWN K_s True] =
   Inr (no_answers, app_init\<lparr>canvas := toggle_grid Canvas, saved := [(''a.png'', surf Canvas)]\<rparr>) \<and>
   (\<exists>new. [(''a.png'', surf Canvas)] = [] @ new \<and> (\<forall>x \<in> set new. snd x = surf (update Canvas)))"
  using saved_image_is_frame_start_render [OF reachable.init,
      of "\<lparr>file_answers = [''a.png''], color_answers = [], ok_answers = []\<rparr>"
         "[KEYDOWN K_g False, KEYDOWN K_s True]" no_answers
         "app_init\<lparr>canvas := toggle_grid Canvas, saved := [(''a.png'', surf Canvas)]\<rparr>"]
    reachable.init
  by (simp add: handle_event_def prompt_file_def app_init_def toggle_grid_def)


theorem handle_event_fails_iff_witness:
  "reachable app_init \<and> blocks_on no_answers (palette app_init) (KEYDOWN K_s True) \<and>
   handle_event no_answers app_init (KEYDOWN K_s True) = Inl Blocked"
  using handle_event_fails_iff [OF reachable.init, of no_answers "KEYDOWN K_s True"] reachable.init
  by (simp add: blocks_on_def)

theorem runs_palette_colors_witness:
  "main_loop \<lparr>file_answers = [], color_answers = [Some (1, 2, 3)], ok_answers = []\<rparr>
     [\<lparr>events = [MOUSEBUTTONDOWN 1 (830, 5)], mouse_left = False, mouse_pos = (0, 0)\<rparr>] app_init =
     Inr (no_answers, app_init\<lparr>palette := add_color (palette app_init) (1, 2, 3), canvas := update Canvas\<rparr>) \<and>
   (\<exists>n. colors (add_color (palette app_init) (1, 2, 3)) = init_colors @ chosen (take n [Some (1, 2, 3)]) \<and>
     [] = drop n [Some (1, 2, 3) :: color option])"
proof -
  have l: "main_loop \<lparr>file_answers = [], color_answers = [Some (1, 2, 3)], ok_answers = []\<rparr>
     [\<lparr>events = [MOUSEBUTTONDOWN 1 (830, 5)], mouse_left = False, mouse_pos = (0, 0)\<rparr>] app_init =
     Inr (no_answers, app_init\<lparr>palette := add_color (palette app_init) (1, 2, 3), canvas := update Canvas\<rparr>)"
    by (simp add: frame_def handle_event_def select_def prompt_color_def mouse_paint_def app_init_def
        BUTTON_LEFT_def Rect_def window_width_def SIZE_def)
  show ?thesis using runs_palette_colors [OF l] l by simp
qed


theorem frame_stops_iff_witness:
  "run app_init \<and>
   frame no_answers \<lparr>events = [KEYDOWN K_q True], mouse_left = False, mouse_pos = (0, 0)\<rparr> app_init =
     Inr (no_answers, app_init\<lparr>canvas := update Canvas, run := False\<rparr>) \<and>
   KEYDOWN K_q True \<in> set [KEYDOWN K_q True]"
  using frame_stops_iff [of app_init no_answers "\<lparr>events = [KEYDOWN K_q True], mouse_left = False, mouse_pos = (0, 0)\<rparr>"
      no_answers "app_init\<lparr>canvas := update Canvas, run := False\<rparr>"]
  by (simp add: frame_def handle_event_def mouse_paint_def app_init_def)

end
