(* ===== verification/Buttons.thy ===== *)
theory Buttons
  imports Draw
begin

text \<open>
  The two buttons of the palette (\<^verbatim>\<open>src/taint.py\<close>, classes \<open>Button\<close>,
  \<open>PickerButton\<close>, \<open>ClearButton\<close>, lines 46-71). A button is a \<open>pygame.Rect\<close>
  whose \<open>draw\<close> paints an icon: a one-pixel white outline and two white bars of width 3,
  a cross for the add button and an X for the clear button. The bars are
  \<open>pygame.draw.line\<close> with width 3, modelled from pygame's documentation: the centre line
  is rasterised by Bresenham's loop, with fuel \<open>|dx| + |dy| + 1\<close>, which is enough
  (lemma \<open>bresenham_inv\<close>: every step moves one pixel closer to the end point and never
  passes it); every pixel of the centre line is widened by the offsets
  \<open>-((w-1) div 2) .. w div 2\<close>, sideways for a steep line and vertically otherwise.
  The lemmas show that the loop reaches the end point of the line and stays in its bounding
  box, and that an icon never draws outside its button.
\<close>

section \<open>Thick lines\<close>

fun bresenham :: "nat \<Rightarrow> int \<Rightarrow> int \<Rightarrow> int \<Rightarrow> int \<Rightarrow> int \<Rightarrow> int \<Rightarrow> int \<Rightarrow> int \<Rightarrow> int \<Rightarrow> point list" where
  "bresenham 0 x y x2 y2 dx dy sx sy err = []"
| "bresenham (Suc k) x y x2 y2 dx dy sx sy err =
     (x, y) #
     (if x = x2 \<and> y = y2 then []
      else let e2 = 2 * err in
        bresenham k (if dy \<le> e2 then x + sx else x) (if e2 \<le> dx then y + sy else y) x2 y2 dx dy sx sy
          (err + (if dy \<le> e2 then dy else 0) + (if e2 \<le> dx then dx else 0)))"

definition line_points :: "point \<Rightarrow> point \<Rightarrow> point list" where
  "line_points p1 p2 =
     (let (x1, y1) = p1; (x2, y2) = p2; a = \<bar>x2 - x1\<bar>; b = \<bar>y2 - y1\<bar> in
      bresenham (nat (a + b) + 1) x1 y1 x2 y2 a (- b)
        (if x1 < x2 then 1 else -1) (if y1 < y2 then 1 else -1) (a - b))"

definition line_offsets :: "int \<Rightarrow> int list" where
  "line_offsets w = [- ((w - 1) div 2) .. w div 2]"

definition line_pixels :: "point \<Rightarrow> point \<Rightarrow> int \<Rightarrow> point list" where
  "line_pixels p1 p2 w =
     (if w < 1 then []
      else let steep = \<bar>fst p1 - fst p2\<bar> \<le> \<bar>snd p1 - snd p2\<bar> in
        concat (map (\<lambda>(x, y). map (\<lambda>d. if steep then (x + d, y) else (x, y + d)) (line_offsets w))
          (line_points p1 p2)))"

definition draw_line :: "surface \<Rightarrow> color \<Rightarrow> point \<Rightarrow> point \<Rightarrow> int \<Rightarrow> surface" where
  "draw_line s c p1 p2 w = (\<lambda>q. if q \<in> set (line_pixels p1 p2 w) then c else s q)"

section \<open>The buttons\<close>

definition left :: "'a rect_scheme \<Rightarrow> int" where "left r = rx r"
definition top :: "'a rect_scheme \<Rightarrow> int" where "top r = ry r"
definition right :: "'a rect_scheme \<Rightarrow> int" where "right r = rx r + rw r"
definition bottom :: "'a rect_scheme \<Rightarrow> int" where "bottom r = ry r + rh r"
definition centerx :: "'a rect_scheme \<Rightarrow> int" where "centerx r = rx r + rw r div 2"
definition centery :: "'a rect_scheme \<Rightarrow> int" where "centery r = ry r + rh r div 2"

lemmas rect_attrs = left_def top_def right_def bottom_def centerx_def centery_def

definition button_draw :: "'a rect_scheme \<Rightarrow> surface \<Rightarrow> surface" where
  "button_draw r s = s"

definition picker_draw :: "'a rect_scheme \<Rightarrow> surface \<Rightarrow> surface" where
  "picker_draw r s =
     (let ofs = 5;
          s1 = draw_rect_border s WHITE r;
          s2 = draw_line s1 WHITE (centerx r, top r + ofs) (centerx r, bottom r - ofs) 3
      in draw_line s2 WHITE (left r + ofs, centery r) (right r - ofs, centery r) 3)"

definition clear_draw :: "'a rect_scheme \<Rightarrow> surface \<Rightarrow> surface" where
  "clear_draw r s =
     (let ofs = 5;
          s1 = draw_rect_border s WHITE r;
          s2 = draw_line s1 WHITE (left r + ofs, top r + ofs) (right r - ofs, bottom r - ofs) 3
      in draw_line s2 WHITE (left r + ofs, bottom r - ofs) (right r - ofs, top r + ofs) 3)"

section \<open>The rasterisation loop\<close>

lemma bresenham_inv:
  fixes a b i j :: int
  assumes "0 \<le> i" "i \<le> a" "0 \<le> j" "j \<le> b" "\<bar>sx\<bar> = 1" "\<bar>sy\<bar> = 1" "nat (a - i + (b - j)) < k"
  shows "bresenham k (x1 + sx * i) (y1 + sy * j) (x1 + sx * a) (y1 + sy * b) a (- b) sx sy
           (a * (j + 1) - b * (i + 1)) \<noteq> [] \<and>
         last (bresenham k (x1 + sx * i) (y1 + sy * j) (x1 + sx * a) (y1 + sy * b) a (- b) sx sy
           (a * (j + 1) - b * (i + 1))) = (x1 + sx * a, y1 + sy * b) \<and>
         (\<forall>q \<in> set (bresenham k (x1 + sx * i) (y1 + sy * j) (x1 + sx * a) (y1 + sy * b) a (- b) sx sy
           (a * (j + 1) - b * (i + 1))).
            \<exists>i' j'. i \<le> i' \<and> i' \<le> a \<and> j \<le> j' \<and> j' \<le> b \<and> q = (x1 + sx * i', y1 + sy * j'))"
  using assms
proof (induction k arbitrary: i j)
  case 0
  then show ?case by simp
next
  case (Suc k)
  let ?e = "a * (j + 1) - b * (i + 1)"
  show ?case
  proof (cases "i = a \<and> j = b")
    case True
    then show ?thesis by auto
  next
    case False
    have sx0: "sx \<noteq> 0" and sy0: "sy \<noteq> 0" using Suc.prems by auto
    have ne: "\<not> (x1 + sx * i = x1 + sx * a \<and> y1 + sy * j = y1 + sy * b)"
      using False sx0 sy0 by simp
    define xs where "xs = (- b \<le> 2 * ?e)"
    define ys where "ys = (2 * ?e \<le> a)"
    define i' where "i' = (if xs then i + 1 else i)"
    define j' where "j' = (if ys then j + 1 else j)"
    have a0: "0 \<le> a" and b0: "0 \<le> b" using Suc.prems by linarith+
    have step: "xs \<or> ys" using a0 b0 by (auto simp: xs_def ys_def)
    have i'a: "i' \<le> a"
    proof (cases "xs \<and> i = a")
      case True
      then have "j < b" using False Suc.prems by auto
      then have "a * (j + 1) \<le> a * b" using a0 by (simp add: mult_left_mono)
      moreover have "- b \<le> 2 * (a * (j + 1) - b * (a + 1))" using True by (clarsimp simp: xs_def)
      moreover have "b * (a + 1) = a * b + b" by (simp add: algebra_simps)
      ultimately have "b \<le> 0" by (simp add: algebra_simps)
      then show ?thesis using \<open>j < b\<close> Suc.prems by linarith
    qed (use Suc.prems in \<open>auto simp: i'_def\<close>)
    have j'b: "j' \<le> b"
    proof (cases "ys \<and> j = b")
      case True
      then have "i < a" using False Suc.prems by auto
      then have "b * (i + 1) \<le> b * a" using b0 by (simp add: mult_left_mono)
      moreover have "2 * (a * (b + 1) - b * (i + 1)) \<le> a" using True by (clarsimp simp: ys_def)
      moreover have "a * (b + 1) = b * a + a" by (simp add: algebra_simps)
      ultimately have "a \<le> 0" by (simp add: algebra_simps)
      then show ?thesis using \<open>i < a\<close> Suc.prems by linarith
    qed (use Suc.prems in \<open>auto simp: j'_def\<close>)
    have x: "(if - b \<le> 2 * ?e then x1 + sx * i + sx else x1 + sx * i) = x1 + sx * i'"
      by (simp add: i'_def xs_def algebra_simps)
    have y: "(if 2 * ?e \<le> a then y1 + sy * j + sy else y1 + sy * j) = y1 + sy * j'"
      by (simp add: j'_def ys_def algebra_simps)
    have err: "?e + (if - b \<le> 2 * ?e then - b else 0) + (if 2 * ?e \<le> a then a else 0) =
        a * (j' + 1) - b * (i' + 1)"
      by (simp add: i'_def j'_def xs_def ys_def algebra_simps)
    have meas: "nat (a - i' + (b - j')) < k"
      using step Suc.prems i'a j'b by (auto simp: i'_def j'_def)
    have i'0: "0 \<le> i'" and j'0: "0 \<le> j'" and "i \<le> i'" "j \<le> j'"
      using Suc.prems by (simp_all add: i'_def j'_def)
    note IH = Suc.IH [OF i'0 i'a j'0 j'b Suc.prems(5,6) meas]
    have rec: "bresenham (Suc k) (x1 + sx * i) (y1 + sy * j) (x1 + sx * a) (y1 + sy * b) a (- b) sx sy ?e =
        (x1 + sx * i, y1 + sy * j) #
        bresenham k (x1 + sx * i') (y1 + sy * j') (x1 + sx * a) (y1 + sy * b) a (- b) sx sy
          (a * (j' + 1) - b * (i' + 1))"
      using ne by (simp only: bresenham.simps Let_def x y err if_False)
    let ?R = "bresenham k (x1 + sx * i') (y1 + sy * j') (x1 + sx * a) (y1 + sy * b) a (- b) sx sy
          (a * (j' + 1) - b * (i' + 1))"
    have ne': "?R \<noteq> []" and lst: "last ?R = (x1 + sx * a, y1 + sy * b)"
      and st: "\<forall>q \<in> set ?R. \<exists>i'' j''. i' \<le> i'' \<and> i'' \<le> a \<and> j' \<le> j'' \<and> j'' \<le> b \<and>
          q = (x1 + sx * i'', y1 + sy * j'')"
      using IH by blast+
    have "\<forall>q \<in> set ?R. \<exists>i'' j''. i \<le> i'' \<and> i'' \<le> a \<and> j \<le> j'' \<and> j'' \<le> b \<and>
          q = (x1 + sx * i'', y1 + sy * j'')"
      using st \<open>i \<le> i'\<close> \<open>j \<le> j'\<close> by (blast intro: order_trans)
    moreover have "\<exists>i'' j''. i \<le> i'' \<and> i'' \<le> a \<and> j \<le> j'' \<and> j'' \<le> b \<and>
          (x1 + sx * i, y1 + sy * j) = (x1 + sx * i'', y1 + sy * j'')"
      using Suc.prems by blast
    ultimately show ?thesis using ne' lst unfolding rec by simp
  qed
qed

lemma line_points_path:
  fixes x1 y1 x2 y2 :: int
  shows "line_points (x1, y1) (x2, y2) \<noteq> [] \<and> hd (line_points (x1, y1) (x2, y2)) = (x1, y1) \<and>
    last (line_points (x1, y1) (x2, y2)) = (x2, y2) \<and>
    (\<forall>q \<in> set (line_points (x1, y1) (x2, y2)).
       min x1 x2 \<le> fst q \<and> fst q \<le> max x1 x2 \<and> min y1 y2 \<le> snd q \<and> snd q \<le> max y1 y2)"
proof -
  define sx :: int where "sx = (if x1 < x2 then 1 else -1)"
  define sy :: int where "sy = (if y1 < y2 then 1 else -1)"
  define a where "a = \<bar>x2 - x1\<bar>"
  define b where "b = \<bar>y2 - y1\<bar>"
  have ex: "x1 + sx * a = x2" and ey: "y1 + sy * b = y2" by (simp_all add: sx_def sy_def a_def b_def)
  have lp: "line_points (x1, y1) (x2, y2) =
      bresenham (nat (a - 0 + (b - 0)) + 1) (x1 + sx * 0) (y1 + sy * 0) (x1 + sx * a) (y1 + sy * b) a (- b) sx sy
        (a * (0 + 1) - b * (0 + 1))"
  proof -
    have "line_points (x1, y1) (x2, y2) = bresenham (nat (a + b) + 1) x1 y1 x2 y2 a (- b) sx sy (a - b)"
      by (simp add: line_points_def Let_def a_def b_def sx_def sy_def del: bresenham.simps)
    then show ?thesis by (simp add: ex ey del: bresenham.simps)
  qed
  have inv: "\<And>i j. 0 \<le> i \<Longrightarrow> i \<le> a \<Longrightarrow> 0 \<le> j \<Longrightarrow> j \<le> b \<Longrightarrow>
      min x1 x2 \<le> x1 + sx * i \<and> x1 + sx * i \<le> max x1 x2 \<and> min y1 y2 \<le> y1 + sy * j \<and> y1 + sy * j \<le> max y1 y2"
    by (auto simp: sx_def sy_def a_def b_def)
  have sxy: "\<bar>sx\<bar> = 1" "\<bar>sy\<bar> = 1" and ab: "0 \<le> a" "0 \<le> b"
    by (simp_all add: sx_def sy_def a_def b_def)
  let ?R = "bresenham (nat (a - 0 + (b - 0)) + 1) (x1 + sx * 0) (y1 + sy * 0) (x1 + sx * a) (y1 + sy * b)
      a (- b) sx sy (a * (0 + 1) - b * (0 + 1))"
  have B: "?R \<noteq> [] \<and> last ?R = (x1 + sx * a, y1 + sy * b) \<and>
      (\<forall>q \<in> set ?R. \<exists>i j. 0 \<le> i \<and> i \<le> a \<and> 0 \<le> j \<and> j \<le> b \<and> q = (x1 + sx * i, y1 + sy * j))"
    by (rule bresenham_inv) (use sxy ab in simp_all)
  have box: "min x1 x2 \<le> fst q \<and> fst q \<le> max x1 x2 \<and> min y1 y2 \<le> snd q \<and> snd q \<le> max y1 y2"
    if "q \<in> set ?R" for q
  proof -
    have "\<exists>i j. 0 \<le> i \<and> i \<le> a \<and> 0 \<le> j \<and> j \<le> b \<and> q = (x1 + sx * i, y1 + sy * j)"
      using bspec [OF conjunct2 [OF conjunct2 [OF B]] that] .
    then obtain i j where "0 \<le> i" "i \<le> a" "0 \<le> j" "j \<le> b" "q = (x1 + sx * i, y1 + sy * j)"
      by blast
    with inv [of i j] show ?thesis by simp
  qed
  have "hd ?R = (x1, y1)" by simp
  with B box show ?thesis unfolding lp ex ey by blast
qed

section \<open>Where the icons are drawn\<close>

lemma line_pixels_box:
  assumes "q \<in> set (line_pixels (x1, y1) (x2, y2) w)"
  shows "min x1 x2 - (w - 1) div 2 \<le> fst q \<and> fst q \<le> max x1 x2 + w div 2 \<and>
    min y1 y2 - (w - 1) div 2 \<le> snd q \<and> snd q \<le> max y1 y2 + w div 2"
proof -
  obtain x y d where p: "(x, y) \<in> set (line_points (x1, y1) (x2, y2))"
    and d: "- ((w - 1) div 2) \<le> d" "d \<le> w div 2" and w: "1 \<le> w"
    and q: "q = (x + d, y) \<or> q = (x, y + d)"
    using assms by (auto simp: line_pixels_def line_offsets_def Let_def split: if_splits)
  have "0 \<le> w div 2" "0 \<le> (w - 1) div 2" using w by simp_all
  with line_points_path [of x1 y1 x2 y2] p d q show ?thesis by fastforce
qed

lemma line_pixels_ends:
  assumes "1 \<le> w"
  shows "p1 \<in> set (line_pixels p1 p2 w) \<and> p2 \<in> set (line_pixels p1 p2 w)"
proof -
  obtain x1 y1 x2 y2 where p: "p1 = (x1, y1)" "p2 = (x2, y2)" by fastforce
  have ends: "p1 \<in> set (line_points p1 p2)" "p2 \<in> set (line_points p1 p2)"
    using line_points_path [of x1 y1 x2 y2] unfolding p by (metis hd_in_set last_in_set)+
  have z: "0 \<in> set (line_offsets w)" using assms by (simp add: line_offsets_def)
  have "p \<in> set (line_pixels p1 p2 w)" if p: "p \<in> set (line_points p1 p2)" for p
  proof -
    let ?g = "\<lambda>(x, y). map (\<lambda>d. if \<bar>fst p1 - fst p2\<bar> \<le> \<bar>snd p1 - snd p2\<bar> then (x + d, y) else (x, y + d))
        (line_offsets w)"
    have "p \<in> set (?g p)" using z by (cases p) (force simp: image_iff)
    then have "p \<in> set (concat (map ?g (line_points p1 p2)))" using p by auto
    then show ?thesis using assms by (simp add: line_pixels_def Let_def)
  qed
  with ends show ?thesis by blast
qed

lemma thick_line_in_rect:
  assumes "q \<in> set (line_pixels (x1, y1) (x2, y2) 3)"
    and "rx r + 1 \<le> x1" "rx r + 1 \<le> x2" "x1 + 1 < rx r + rw r" "x2 + 1 < rx r + rw r"
    and "ry r + 1 \<le> y1" "ry r + 1 \<le> y2" "y1 + 1 < ry r + rh r" "y2 + 1 < ry r + rh r"
  shows "collidepoint r q"
  using line_pixels_box [OF assms(1)] assms(2-) by (cases q) (simp add: min_def max_def split: if_splits)

lemma draw_line_other: "q \<notin> set (line_pixels p1 p2 w) \<Longrightarrow> draw_line s c p1 p2 w q = s q"
  by (simp add: draw_line_def)

lemma draw_rect_border_other: "\<not> collidepoint r q \<Longrightarrow> draw_rect_border s c r q = s q"
  by (auto simp: draw_rect_border_def dest: on_border_collide)

lemma half_bounds: "7 \<le> w \<Longrightarrow> 1 \<le> w div 2 \<and> w div 2 + 1 < (w :: int)"
  by presburger

lemma picker_draw_other:
  assumes "7 \<le> rw r" "7 \<le> rh r" and out: "\<not> collidepoint r q"
  shows "picker_draw r s q = s q"
proof -
  have v: "q \<notin> set (line_pixels (centerx r, top r + 5) (centerx r, bottom r - 5) 3)"
  proof
    assume "q \<in> set (line_pixels (centerx r, top r + 5) (centerx r, bottom r - 5) 3)"
    then have "collidepoint r q"
      by (rule thick_line_in_rect) (use half_bounds [OF assms(1)] assms(2) in \<open>simp_all add: rect_attrs\<close>)
    with out show False ..
  qed
  have h: "q \<notin> set (line_pixels (left r + 5, centery r) (right r - 5, centery r) 3)"
  proof
    assume "q \<in> set (line_pixels (left r + 5, centery r) (right r - 5, centery r) 3)"
    then have "collidepoint r q"
      by (rule thick_line_in_rect) (use half_bounds [OF assms(2)] assms(1) in \<open>simp_all add: rect_attrs\<close>)
    with out show False ..
  qed
  show ?thesis
    using v h out by (simp add: picker_draw_def Let_def draw_line_other draw_rect_border_other)
qed

lemma clear_draw_other:
  assumes "7 \<le> rw r" "7 \<le> rh r" and out: "\<not> collidepoint r q"
  shows "clear_draw r s q = s q"
proof -
  have d1: "q \<notin> set (line_pixels (left r + 5, top r + 5) (right r - 5, bottom r - 5) 3)"
  proof
    assume "q \<in> set (line_pixels (left r + 5, top r + 5) (right r - 5, bottom r - 5) 3)"
    then have "collidepoint r q"
      by (rule thick_line_in_rect) (use assms(1,2) in \<open>simp_all add: rect_attrs\<close>)
    with out show False ..
  qed
  have d2: "q \<notin> set (line_pixels (left r + 5, bottom r - 5) (right r - 5, top r + 5) 3)"
  proof
    assume "q \<in> set (line_pixels (left r + 5, bottom r - 5) (right r - 5, top r + 5) 3)"
    then have "collidepoint r q"
      by (rule thick_line_in_rect) (use assms(1,2) in \<open>simp_all add: rect_attrs\<close>)
    with out show False ..
  qed
  show ?thesis
    using d1 d2 out by (simp add: clear_draw_def Let_def draw_line_other draw_rect_border_other)
qed



section \<open>Properties of the buttons\<close>

text \<open>C28. The icons stay inside their buttons: for a button of at least 7 by 7 pixels
  (the program's are 32 by 32), \<open>PickerButton.draw\<close> and \<open>ClearButton.draw\<close> leave
  every pixel outside the button's rectangle unchanged.\<close>

theorem button_icons_inside:
  assumes "7 \<le> rw r" "7 \<le> rh r" and "\<not> collidepoint r q"
  shows "picker_draw r s q = s q \<and> clear_draw r s q = s q"
  using picker_draw_other [OF assms] clear_draw_other [OF assms] by simp

text \<open>C29. The rasterisation of each bar runs to its end: for every button rectangle,
  the far end points of both bars of both icons are painted white.\<close>

theorem icons_reach_ends:
  "picker_draw r s (centerx r, bottom r - 5) = WHITE \<and> picker_draw r s (right r - 5, centery r) = WHITE \<and>
   clear_draw r s (right r - 5, bottom r - 5) = WHITE \<and> clear_draw r s (right r - 5, top r + 5) = WHITE"
  using line_pixels_ends [of 3] by (simp add: picker_draw_def clear_draw_def Let_def draw_line_def)


section \<open>Witnesses at the add and clear buttons of the program\<close>

theorem button_icons_inside_witness:
  "7 \<le> rw (Rect 824 0 SIZE SIZE) \<and> 7 \<le> rh (Rect 824 0 SIZE SIZE) \<and>
   \<not> collidepoint (Rect 824 0 SIZE SIZE) (840, 32) \<and>
   picker_draw (Rect 824 0 SIZE SIZE) (\<lambda>_. BLACK) (840, 32) = BLACK \<and>
   clear_draw (Rect 824 0 SIZE SIZE) (\<lambda>_. BLACK) (840, 32) = BLACK"
  using button_icons_inside [of "Rect 824 0 SIZE SIZE" "(840, 32)" "\<lambda>_. BLACK"]
  by (simp add: Rect_def SIZE_def)

end
