(* ===== verification/Screen.thy ===== *)
theory Screen
  imports App Buttons
begin

text \<open>
  The window (\<^verbatim>\<open>src/taint.py\<close>, \<open>Palette.draw\<close> at lines 169-176 and the end of
  the main loop at lines 225-229). After the canvas is rendered, each frame fills the
  screen grey, draws the palette (its blocks with the highlight, then the add and clear
  buttons) and blits the canvas surface at the origin; \<open>display.update\<close> shows the
  result. \<open>present\<close> computes the screen a frame leaves; \<open>frame_display\<close> is one
  iteration of the loop with the screen threaded through and \<open>main_loop_display\<close> the
  whole \<open>while run\<close> loop with it, proved to refine \<open>main_loop\<close>. Because the screen is filled
  first, what a frame shows does not depend on the screen before it. The lemmas show what
  the window shows in every reachable state: the canvas cells in the canvas area, every
  palette entry in its own colour, and the grey fill everywhere else.
\<close>

section \<open>Drawing the window\<close>

definition palette_draw :: "palette \<Rightarrow> surface \<Rightarrow> surface" where
  "palette_draw p s = clear_draw (button_clear p) (picker_draw (button_add p) (draw_palette_blocks p s))"

definition blit :: "surface \<Rightarrow> surface \<Rightarrow> point \<Rightarrow> int \<Rightarrow> int \<Rightarrow> surface" where
  "blit dst src pos w h =
     (\<lambda>(qx, qy). if fst pos \<le> qx \<and> qx < fst pos + w \<and> snd pos \<le> qy \<and> qy < snd pos + h
                then src (qx - fst pos, qy - snd pos) else dst (qx, qy))"

definition present :: "surface \<Rightarrow> app \<Rightarrow> surface" where
  "present scr s =
     blit (palette_draw (palette s) (surface_fill scr (63, 63, 63))) (surf (canvas s)) (0, 0)
       canvas_size canvas_size"

definition frame_display :: "user \<Rightarrow> frame_input \<Rightarrow> app \<times> surface \<Rightarrow> error + (user \<times> app \<times> surface)" where
  "frame_display u fi ss =
     (case frame u fi (fst ss) of
        Inl e \<Rightarrow> Inl e
      | Inr (u', s') \<Rightarrow> Inr (u', s', present (snd ss) s'))"

text \<open>\<open>while run\<close> with the screen threaded through: each frame presents its
  final state.\<close>

fun main_loop_display :: "user \<Rightarrow> frame_input list \<Rightarrow> app \<times> surface \<Rightarrow> error + (user \<times> app \<times> surface)" where
  "main_loop_display u [] ss = Inr (u, fst ss, snd ss)"
| "main_loop_display u (fi # fis) ss =
     (if run (fst ss) then
        (case frame_display u fi ss of
           Inl e \<Rightarrow> Inl e
         | Inr (u', s', scr') \<Rightarrow> main_loop_display u' fis (s', scr'))
      else Inr (u, fst ss, snd ss))"

section \<open>What the window shows\<close>

lemma present_indep: "present scr s = present scr' s"
  by (simp add: present_def surface_fill_def)

lemma present_canvas: "in_canvas (px, py) \<Longrightarrow> present scr s (px, py) = surf (canvas s) (px, py)"
  by (simp add: present_def blit_def in_canvas_def get_rect_def Rect_def)

lemma present_outside_canvas:
  "\<not> in_canvas q \<Longrightarrow> present scr s q = palette_draw (palette s) (\<lambda>_. (63, 63, 63)) q"
  by (cases q) (auto simp: present_def blit_def in_canvas_def get_rect_def Rect_def surface_fill_def)

lemma palette_draw_below_buttons:
  assumes "palette_inv p" and "collidepoint (pal_block (offset p) (j, c)) q"
  shows "palette_draw p s q = draw_palette_blocks p s q"
proof -
  have "\<not> collidepoint (button_add p) q" "\<not> collidepoint (button_clear p) q"
    using assms pal_block_below_buttons [OF assms(2)] by (simp_all add: palette_inv_def)
  moreover have "7 \<le> rw (button_add p) \<and> 7 \<le> rh (button_add p) \<and> 7 \<le> rw (button_clear p) \<and>
      7 \<le> rh (button_clear p)"
    using assms(1) by (simp add: palette_inv_def Rect_def SIZE_def)
  ultimately show ?thesis
    by (simp add: palette_draw_def picker_draw_other clear_draw_other)
qed

lemma draw_palette_blocks_entry:
  assumes inv: "palette_inv p" and j: "j < length (colors p)"
    and hit: "collidepoint (pal_block (offset p) (j, colors p ! j)) q"
    and nb: "\<not> on_border (pal_block (offset p) (j, colors p ! j)) q"
  shows "draw_palette_blocks p s q = colors p ! j"
proof -
  let ?b = "pal_block (offset p) (j, colors p ! j)" and ?P = "\<lambda>(i, b). collidepoint b q"
  have lay: "set (pblocks p) = set (palette_layout (offset p) (colors p))"
    using inv by (simp add: palette_inv_def)
  have "?b \<in> set (pblocks p)" using j lay by (auto simp: set_palette_layout simp del: pal_block.simps)
  then obtain k where "k < length (pblocks p)" "pblocks p ! k = ?b" by (auto simp: in_set_conv_nth)
  then have "(k, ?b) \<in> set (rev (enumerate 0 (pblocks p)))" by (auto simp: in_set_enumerate_eq)
  then obtain i b where f: "find ?P (rev (enumerate 0 (pblocks p))) = Some (i, b)"
    using hit by (cases "find ?P (rev (enumerate 0 (pblocks p)))") (auto simp: find_None_iff)
  then have ib: "(i, b) \<in> set (enumerate 0 (pblocks p))" and "collidepoint b q"
    by (auto dest!: find_SomeD)
  from ib have "i < length (pblocks p)" "pblocks p ! i = b" by (simp_all add: in_set_enumerate_eq)
  then have "b \<in> set (pblocks p)" by (metis nth_mem)
  then have "b \<in> set (palette_layout (offset p) (colors p))" unfolding lay .
  then have "b = ?b" using in_palette_layout_hit [OF _ \<open>collidepoint b q\<close> j hit] by blast
  then show ?thesis using f nb by (simp add: draw_palette_blocks_pixel del: pal_block.simps on_border.simps)
qed


lemma pal_block_off_canvas:
  assumes "collidepoint (pal_block off (j, c)) q" and "canvas_size \<le> off"
  shows "\<not> in_canvas q"
  using assms by (cases q) (simp add: Block_def in_canvas_def get_rect_def Rect_def SIZE_def)

lemma frame_display_step:
  assumes "reachable s" "run s" "frame_display u fi (s, scr) = Inr (u', s', scr')"
  shows "reachable s' \<and> scr' = present scr s'"
proof -
  have f: "frame u fi s = Inr (u', s')" and "scr' = present scr s'"
    using assms(3) by (auto simp: frame_display_def split: sum.splits prod.splits)
  moreover have "app_step s s'" using frame_step [OF assms(2) f] .
  ultimately show ?thesis using assms(1) reachable.step by blast
qed

text \<open>The loop with the window refines the loop without it: it fails exactly when
  \<open>main_loop\<close> fails, otherwise ends in the same state and answers, and the screen it
  leaves is the presentation of the final state whenever a frame ran.\<close>

lemma main_loop_display_refines:
  "main_loop_display u fis (s, scr) =
     (case main_loop u fis s of
        Inl e \<Rightarrow> Inl e
      | Inr (u', s') \<Rightarrow> Inr (u', s', if run s \<and> fis \<noteq> [] then present scr s' else scr))"
proof (induction fis arbitrary: u s scr)
  case Nil
  then show ?case by simp
next
  case (Cons fi fis)
  show ?case
  proof (cases "run s")
    case True
    show ?thesis
    proof (cases "frame u fi s")
      case (Inl e)
      with True show ?thesis by (simp add: frame_display_def)
    next
      case (Inr r)
      then obtain u1 s1 where f: "frame u fi s = Inr (u1, s1)" by (cases r) auto
      have "main_loop_display u (fi # fis) (s, scr) = main_loop_display u1 fis (s1, present scr s1)"
        using True f by (simp add: frame_display_def)
      also have "\<dots> = (case main_loop u1 fis s1 of
            Inl e \<Rightarrow> Inl e
          | Inr (u', s') \<Rightarrow> Inr (u', s', if run s1 \<and> fis \<noteq> [] then present (present scr s1) s' else present scr s1))"
        by (rule Cons.IH)
      also have "\<dots> = (case main_loop u1 fis s1 of
            Inl e \<Rightarrow> Inl e | Inr (u', s') \<Rightarrow> Inr (u', s', present scr s'))"
        by (cases fis) (auto simp: present_indep [of "present scr s1" _ scr] split: sum.splits)
      finally show ?thesis using True f by (simp split: sum.split)
    qed
  qed simp
qed

section \<open>Properties of the window\<close>

text \<open>C30. The window shows the canvas cells: after any frame from a reachable state, a
  pixel of the canvas area of the screen is black on a grid line when the grid is shown, and
  otherwise has the colour of the abstract cell containing it.\<close>

theorem screen_shows_cells:
  assumes "reachable s" "run s" "frame_display u fi (s, scr) = Inr (u', s', scr')"
    and inc: "in_canvas (px, py)"
  shows "Some (scr' (px, py)) =
    (if show_grid (canvas s') \<noteq> 0 \<and> (px mod SIZE = 0 \<or> py mod SIZE = 0) then Some BLACK
     else cells (canvas s') (nat (px div SIZE), nat (py div SIZE)))"
proof -
  note st = frame_display_step [OF assms(1-3)]
  have inv: "canvas_inv (canvas s')" using reachable_app_inv st by (simp add: app_inv_def)
  have "scr' (px, py) = surf (update (canvas s')) (px, py)"
    using st present_canvas [OF inc] reachable_rendered by simp
  then show ?thesis using update_pixel_eq [OF inv inc] cells_at [OF inv inc] by simp
qed

text \<open>C31. The window shows every palette entry in its own colour: after any frame from
  a reachable state, a pixel inside the block of palette entry \<open>j\<close> and off its
  outline has the colour of entry \<open>j\<close>. Neither the canvas, nor the button icons, nor
  the blocks of other entries or duplicates cover it.\<close>

theorem screen_shows_palette_entries:
  assumes "reachable s" "run s" "frame_display u fi (s, scr) = Inr (u', s', scr')"
    and j: "j < length (colors (palette s'))"
    and hit: "collidepoint (pal_block (offset (palette s')) (j, colors (palette s') ! j)) q"
    and nb: "\<not> on_border (pal_block (offset (palette s')) (j, colors (palette s') ! j)) q"
  shows "scr' q = colors (palette s') ! j"
proof -
  note st = frame_display_step [OF assms(1-3)]
  have inv: "app_inv s'" using reachable_app_inv st by blast
  then have pinv: "palette_inv (palette s')" and off: "canvas_size \<le> offset (palette s')"
    by (simp_all add: app_inv_def canvas_size_def window_width_def N_def SIZE_def)
  have "\<not> in_canvas q" by (rule pal_block_off_canvas [OF hit off])
  then have "scr' q = palette_draw (palette s') (\<lambda>_. (63, 63, 63)) q"
    using st present_outside_canvas by simp
  also have "\<dots> = draw_palette_blocks (palette s') (\<lambda>_. (63, 63, 63)) q"
    by (rule palette_draw_below_buttons [OF pinv hit])
  also have "\<dots> = colors (palette s') ! j"
    by (rule draw_palette_blocks_entry [OF pinv j hit nb])
  finally show ?thesis .
qed

text \<open>C36. The window's background is the grey fill: after any run of the loop with the
  window from the start in which a frame ran, every pixel of the screen outside the canvas,
  the palette's blocks and its two buttons is \<open>(63, 63, 63)\<close>, whatever the screen
  showed before.\<close>

theorem window_background:
  assumes run: "main_loop_display u fis (app_init, scr0) = Inr (u', s', scr')" and "fis \<noteq> []"
    and out: "\<not> in_canvas q" "\<forall>b \<in> set (pblocks (palette s')). \<not> collidepoint b q"
      "\<not> collidepoint (button_add (palette s')) q" "\<not> collidepoint (button_clear (palette s')) q"
  shows "scr' q = (63, 63, 63)"
proof -
  have ml: "main_loop u fis app_init = Inr (u', s')" and scr': "scr' = present scr0 s'"
    using run main_loop_display_refines [of u fis app_init scr0] assms(2)
    by (auto simp: app_init_def split: sum.splits prod.splits)
  have "palette_inv (palette s')"
    using reachable_app_inv [OF main_loop_reachable [OF ml reachable.init]] by (simp add: app_inv_def)
  then have sz: "7 \<le> rw (button_add (palette s')) \<and> 7 \<le> rh (button_add (palette s')) \<and>
      7 \<le> rw (button_clear (palette s')) \<and> 7 \<le> rh (button_clear (palette s'))"
    by (simp add: palette_inv_def Rect_def SIZE_def)
  have "find (\<lambda>(i, b). collidepoint b q) (rev (enumerate 0 (pblocks (palette s')))) = None"
    using out(2) by (auto simp: find_None_iff in_set_enumerate_eq)
  then have "draw_palette_blocks (palette s') (\<lambda>_. (63, 63, 63)) q = (63, 63, 63)"
    by (simp add: draw_palette_blocks_pixel)
  then show ?thesis
    using scr' present_outside_canvas [OF out(1)] sz out(3,4)
    by (simp add: palette_draw_def picker_draw_other clear_draw_other)
qed

section \<open>Witnesses at the first frame\<close>

lemma first_frame:
  "frame_display no_answers \<lparr>events = [], mouse_left = False, mouse_pos = (0, 0)\<rparr> (app_init, \<lambda>_. BLACK) =
   Inr (no_answers, app_init\<lparr>canvas := update Canvas\<rparr>, present (\<lambda>_. BLACK) (app_init\<lparr>canvas := update Canvas\<rparr>))"
  by (simp add: frame_display_def frame_def mouse_paint_def app_init_def)

theorem screen_shows_cells_witness:
  "reachable app_init \<and> run app_init \<and> in_canvas (1, 1) \<and>
   present (\<lambda>_. BLACK) (app_init\<lparr>canvas := update Canvas\<rparr>) (1, 1) = WHITE"
  using screen_shows_cells [OF reachable.init _ first_frame in_canvas_1_1] reachable.init in_canvas_1_1
  by (simp add: app_init_def show_grid_Canvas cells_def cblocks_Canvas_0 Block_def SIZE_def)

theorem screen_shows_palette_entries_witness:
  "reachable app_init \<and> run app_init \<and>
   present (\<lambda>_. BLACK) (app_init\<lparr>canvas := update Canvas\<rparr>) (830, 40) = RED"
  using screen_shows_palette_entries [OF reachable.init _ first_frame, of 0 "(830, 40)"] reachable.init
  by (simp add: app_init_def Palette_blocks init_colors_def window_width_def SIZE_def Block_def)


theorem window_background_witness:
  "main_loop_display no_answers [\<lparr>events = [], mouse_left = False, mouse_pos = (0, 0)\<rparr>] (app_init, \<lambda>_. BLACK) =
     Inr (no_answers, app_init\<lparr>canvas := update Canvas\<rparr>, present (\<lambda>_. BLACK) (app_init\<lparr>canvas := update Canvas\<rparr>)) \<and>
   \<not> in_canvas (600, 100) \<and>
   \<not> collidepoint (button_add (palette app_init)) (600, 100) \<and>
   \<not> collidepoint (button_clear (palette app_init)) (600, 100) \<and>
   present (\<lambda>_. BLACK) (app_init\<lparr>canvas := update Canvas\<rparr>) (600, 100) = (63, 63, 63)"
proof -
  have l: "main_loop_display no_answers [\<lparr>events = [], mouse_left = False, mouse_pos = (0, 0)\<rparr>] (app_init, \<lambda>_. BLACK) =
     Inr (no_answers, app_init\<lparr>canvas := update Canvas\<rparr>, present (\<lambda>_. BLACK) (app_init\<lparr>canvas := update Canvas\<rparr>))"
    using first_frame by (simp add: app_init_def)
  have o: "\<not> in_canvas (600, 100)"
    by (simp add: in_canvas_def get_rect_def Rect_def canvas_size_def N_def SIZE_def)
  have b: "\<forall>b \<in> set (pblocks (palette (app_init\<lparr>canvas := update Canvas\<rparr>))). \<not> collidepoint b (600, 100)"
    by (simp add: app_init_def Palette_blocks palette_layout_def init_colors_def window_width_def SIZE_def Block_def)
  have c: "\<not> collidepoint (button_add (palette (app_init\<lparr>canvas := update Canvas\<rparr>))) (600, 100)"
    "\<not> collidepoint (button_clear (palette (app_init\<lparr>canvas := update Canvas\<rparr>))) (600, 100)"
    by (simp_all add: app_init_def Rect_def window_width_def SIZE_def)
  show ?thesis using window_background [OF l _ o b c] l o b c by simp
qed

end
