(* ===== verification/Spec2Isabelle.thy ===== *)
theory Spec2Isabelle
  imports Screen
begin

text \<open>
  \<^bold>\<open>A verification development for \<^verbatim>\<open>src/taint.py\<close>.\<close>
  The program is a pixel-art editor on pygame and Tk, one Python file. Its parts:
  \<^item> the canvas (\<open>class Block\<close>, \<open>class Canvas\<close>): \<open>N * N\<close> blocks of
    \<open>SIZE * SIZE\<close> pixels (\<open>N = 15\<close>, \<open>SIZE = 32\<close>), created column by column;
    \<open>paint\<close> recolours the first block under a point; \<open>clear\<close> whitens all blocks;
    \<open>toggle_grid\<close> flips an int flag; \<open>update\<close> renders the blocks, then grid lines
    if the flag is set, into the canvas surface;
  \<^item> the palette (\<open>class Palette\<close>): a list of colours laid out three per row right of
    an offset, two buttons in the row above (add a colour, clear the canvas), the selected
    index; \<open>select\<close> handles a click: the add button prompts for a colour and calls
    \<open>add_color\<close>, the clear button asks for confirmation and clears the bound canvas, any
    other point selects the last block containing it; \<open>color\<close> reads the selected block;
  \<^item> the buttons (\<open>Button\<close>, \<open>PickerButton\<close>, \<open>ClearButton\<close>): rectangles
    whose \<open>draw\<close> paints a white outline and a cross or an X of 3-pixel lines;
  \<^item> the dialogs (\<open>prompt_file\<close>, \<open>prompt_color\<close>, \<open>prompt_clear\<close>): modal Tk
    dialogs;
  \<^item> the main program: start-up (canvas, palette at \<open>window_width - 200\<close> with five
    colours, \<open>bind_canvas\<close>) and the \<open>while run\<close> loop: each frame handles the queued
    events (quit, Ctrl+Q, Ctrl+S save, G toggle, left click to the palette), then paints
    at the pointer while the left button is held over the canvas, then calls
    \<open>canvas.update()\<close>, fills the screen grey, draws the palette and blits the canvas.
  The palette changes the canvas through the reference \<open>self.canvas\<close>; the loop reads
  \<open>palette.color\<close> to paint.

  \<^bold>\<open>Theories.\<close>
  \<^item> \<open>Taint_Base\<close> (prelude): colours and constants (\<open>COLORS\<close>, \<open>SIZE\<close>,
    \<open>N\<close>, window size); \<open>pygame.Rect\<close> as the record \<open>rect\<close> and its test
    \<open>collidepoint\<close> (left and top edges inside, right and bottom outside); Python's
    \<open>range\<close> with a positive step as \<open>py_range\<close>, a \<^theory_text>\<open>function\<close> whose
    termination is proved with the measure \<open>stop - start\<close>; the \<open>error\<close> values; the
    shared lemmas on lists (\<open>concat\<close>/\<open>map\<close> indexing, unique matches of \<open>find\<close>)
    and on division by the cell size (\<open>div_eq_iff_bounds\<close>, \<open>grid_cell_hit\<close>).
  \<^item> \<open>Draw\<close>: the pygame drawing calls as surface transformers: a surface is a map from
    pixels to colours. These follow pygame's documented behaviour (the library is not code
    of the repository).
  \<^item> \<open>Canvas\<close>: \<open>block\<close> extends \<open>rect\<close> with a colour, as \<open>Block\<close> extends
    \<open>pygame.Rect\<close>; \<open>canvas\<close> holds the blocks, \<open>show_grid\<close> and the surface.
    One definition per method: \<open>init_canvas\<close> (the nested loops as \<open>fold\<close>),
    \<open>paint\<close> (its loop with \<open>break\<close> as \<open>paint_blocks\<close>), \<open>toggle_grid\<close>,
    \<open>update\<close> with \<open>draw_rects\<close> and \<open>draw_grid\<close>, \<open>clear\<close>, and the constructor
    \<open>Canvas\<close>. The invariant \<open>canvas_inv\<close> says the blocks are the fixed tiling
    (block \<open>j\<close> at column \<open>j div N\<close>, row \<open>j mod N\<close>) and the flag is 0 or 1; every
    operation keeps it. The abstract specification is a grid of cells
    (\<open>cells\<close>, \<open>paint_cells\<close>, \<open>clear_cells\<close>); C3 and C5 are the refinement
    lemmas, C7 relates the rendered pixels to it.
  \<^item> \<open>Dialogs\<close>: the user is the sequences of answers they will give to each kind of
    dialog; a prompt consumes the next one. With none left the dialog stays open and the
    call does not return: the value \<open>Inl Blocked\<close>.
  \<^item> \<open>Palette\<close>: record \<open>palette\<close> with the source's fields and \<open>canvas_bound\<close>
    (whether \<open>bind_canvas\<close> ran); \<open>init_palette\<close> (its loop as
    \<open>init_palette_loop\<close>), \<open>Palette\<close>, \<open>palette_color\<close> (\<open>IndexError\<close> out of
    range), \<open>add_color\<close>, \<open>select\<close> (its loop without \<open>break\<close> as
    \<open>select_blocks\<close>), \<open>bind_canvas\<close> and the block part of \<open>draw\<close>. The canvas
    is an argument and a result of \<open>select\<close>, so the aliasing is explicit. The loop of
    \<open>init_palette\<close> is proved equal to a reference layout \<open>palette_layout\<close>
    (C8); the invariant \<open>palette_inv\<close> (blocks are layout blocks, the selection is in
    range, buttons at the offset) is kept by every operation.
  \<^item> \<open>App\<close>: events and frame inputs as data, the state record \<open>app\<close> (canvas,
    palette, \<open>run\<close>, the images saved so far), \<open>handle_event\<close>,
    \<open>handle_events\<close>, \<open>mouse_paint\<close>, \<open>frame\<close>, the executable loop
    \<open>main_loop\<close> over a list of frame inputs, and the step relation \<open>app_step\<close>
    (one frame for any input and any answers) with its \<open>reachable\<close> states. The
    invariant \<open>app_inv\<close> is proved for every reachable state by rule induction; the
    invariant (C13), safety (C14) and progress (C15) results rest on it, and so does
    \<open>main_loop_reachable\<close>: every state the executable loop returns is reachable.
  \<^item> \<open>Buttons\<close>: \<open>pygame.draw.line\<close> of any width and slope (Bresenham's loop with
    fuel \<open>|dx| + |dy| + 1\<close>, widened as pygame documents), the \<open>Rect\<close> attributes
    \<open>left\<close> ... \<open>centery\<close>, and \<open>button_draw\<close>, \<open>picker_draw\<close>,
    \<open>clear_draw\<close> for the three \<open>draw\<close> methods. \<open>bresenham_inv\<close> shows by
    induction on the fuel that the loop moves towards the end point without passing it, so
    the fuel is enough (C29); the icons stay inside their buttons (C28).
  \<^item> \<open>Screen\<close>: \<open>palette_draw\<close> (the whole \<open>Palette.draw\<close>, blocks then
    buttons), \<open>blit\<close>, \<open>present\<close> (fill, palette, blit at lines 225-227) and
    \<open>frame_display\<close> and \<open>main_loop_display\<close>, one iteration and the whole loop
    with the screen threaded through, the latter refining \<open>main_loop\<close>
    (\<open>main_loop_display_refines\<close>). What the window shows after a frame from a
    reachable state: the canvas cells (C30), every palette entry in its colour (C31), and
    the grey fill everywhere else (C36).
  \<^item> \<open>Spec2Isabelle\<close> (this theory): the end-to-end properties that run the loop
    through the palette and the canvas (C19, C20).

  \<^bold>\<open>Bounds and termination.\<close> Python ints are \<open>int\<close>; nothing in the program can
  overflow. Every loop of the source runs over a finite list and is structural recursion
  or a \<open>fold\<close>, except \<open>range\<close> (a measure) and pygame's line loop, whose fuel is
  proved sufficient (\<open>bresenham_inv\<close>, C29). Otherwise no fuel is used: the only way a
  frame fails to return is a dialog left unanswered, which is a value of the model, and
  C15 shows that with an answer per event the frame returns. The main loop is observed
  over a finite list of frames; C16 shows a quit event ends it.

  \<^bold>\<open>What the properties show\<close> (C1-C36 in PROJECT.json's order): the canvas
  operations on every branch and against the abstract grid (C1-C7); the palette layout,
  dialogs and selection (C8-C12); the loop's invariant, safety, progress and quit
  behaviour (C13-C16); behaviours where the code departs from the specification (C9
  blocks duplicated by \<open>add_color\<close>, C17 events after a quit still handled, C18 save
  writes the previous frame's image, C24 highlight hidden after any \<open>add_color\<close>, C25
  last match selected); end-to-end runs (C19, C20) and key and drag handling (C21, C22);
  the highlight shown without duplicates (C23); the canvas surface between frames and the
  staleness of saved images for every reachable state (C26, C27); the button icons (C28,
  C29) and the window (C30, C31, C36); when an event handler fails (C32); layout and
  selection as inverse maps (C33); the palette's colours as the history of the colour
  dialog (C34); the run flag cleared exactly by a quit event or Ctrl+Q (C35).

  \<^bold>\<open>Not modelled.\<close> \<open>pygame.init\<close>, the caption, the icon,
  \<open>display.set_mode\<close>, \<open>display.update\<close> (it shows the screen that \<open>present\<close>
  computes), \<open>clock.tick(60)\<close> and \<open>pygame.quit\<close>: I/O with no effect on the
  state. Clipping of drawing to the surface (a surface is an unbounded pixel map and
  pixels outside it are never read). PNG encoding in \<open>pygame.image.save\<close> (the model
  records the surface written). \<open>range\<close> is modelled for positive steps only, the only
  ones the source uses.

  Everything else of \<^verbatim>\<open>src/taint.py\<close> is modelled: every class and method, the
  start-up, and the loop with its event handling, painting, rendering and presentation.
\<close>

text \<open>C19. End to end: from the start, a click on palette entry 2 (blue) and then a
  frame with the left button held at (5, 5) leave entry 2 selected, cell (0, 0) blue and
  every other cell white.\<close>

theorem scenario_blue_paint:
  "\<exists>s. main_loop u
          [\<lparr>events = [MOUSEBUTTONDOWN BUTTON_LEFT (890, 40)], mouse_left = False, mouse_pos = (890, 40)\<rparr>,
           \<lparr>events = [], mouse_left = True, mouse_pos = (5, 5)\<rparr>] app_init = Inr (u, s) \<and>
       selected (palette s) = 2 \<and>
       cells (canvas s) = (\<lambda>(i, j). if i < N \<and> j < N then Some (if (i, j) = (0, 0) then BLUE else WHITE) else None)"
proof -
  let ?p0 = "bind_canvas (Palette (window_width - 200) init_colors)"
  let ?p1 = "?p0\<lparr>selected := 2\<rparr>"
  let ?cv = "paint (update Canvas) (5, 5) BLUE"
  have sel: "select ?p0 Canvas u (890, 40) = Inr (?p1, Canvas, u)"
    by (simp add: select_def Palette_blocks palette_layout_def init_colors_def window_width_def
        SIZE_def Block_def Rect_def)
  have pc: "palette_color ?p1 = Inr BLUE"
    by (simp add: palette_color_def Palette_blocks palette_layout_def init_colors_def Block_def)
  have ic: "in_canvas (5, 5)"
    by (simp add: in_canvas_def get_rect_def Rect_def canvas_size_def N_def SIZE_def)
  have loop: "main_loop u
          [\<lparr>events = [MOUSEBUTTONDOWN BUTTON_LEFT (890, 40)], mouse_left = False, mouse_pos = (890, 40)\<rparr>,
           \<lparr>events = [], mouse_left = True, mouse_pos = (5, 5)\<rparr>] app_init =
        Inr (u, \<lparr>canvas = update ?cv, palette = ?p1, run = True, saved = []\<rparr>)"
    using sel pc ic
    by (simp add: frame_def handle_event_def mouse_paint_def app_init_def BUTTON_LEFT_def
        in_canvas_def del: collidepoint.simps)
  have blocks: "cblocks ?cv = (cblocks Canvas)[0 := (cblocks Canvas ! 0)\<lparr>color := BLUE\<rparr>]"
    using paint_at_cell [of "update Canvas" "(5, 5)" BLUE] Canvas_inv ic by (simp add: SIZE_def)
  have len: "length (cblocks Canvas) = N * N" by (rule length_cblocks [OF Canvas_inv])
  have "cells ?cv = (\<lambda>(i, j). if i < N \<and> j < N then Some (if (i, j) = (0, 0) then BLUE else WHITE) else None)"
  proof (rule ext, clarify)
    fix i j
    have "i < N \<Longrightarrow> j < N \<Longrightarrow> i * N + j = 0 \<longleftrightarrow> i = 0 \<and> j = 0" by simp
    then show "cells ?cv (i, j) = (if i < N \<and> j < N then Some (if (i, j) = (0, 0) then BLUE else WHITE) else None)"
      using len index_lt_square [of i N j] color_cblocks_Canvas [of "i * N + j"]
      by (auto simp: cells_def blocks)
  qed
  with loop show ?thesis by auto
qed

text \<open>C20. End to end, in any reachable state: a click on the clear button clears the
  canvas if the user confirms and leaves it as it was if they cancel; the palette is
  unchanged.\<close>

theorem clear_via_dialog:
  assumes "reachable s" and "ok_answers u = b # bs"
  shows "frame u \<lparr>events = [MOUSEBUTTONDOWN BUTTON_LEFT (860, 5)], mouse_left = False, mouse_pos = (860, 5)\<rparr> s =
    Inr (u\<lparr>ok_answers := bs\<rparr>, s\<lparr>canvas := update (if b then clear (canvas s) else canvas s)\<rparr>)"
proof -
  have inv: "app_inv s" using reachable_app_inv [OF assms(1)] .
  then have btn: "button_add (palette s) = Rect 824 0 32 32" "button_clear (palette s) = Rect 856 0 32 32"
    and bound: "canvas_bound (palette s)"
    by (simp_all add: app_inv_def palette_inv_def window_width_def SIZE_def)
  show ?thesis
    using btn bound assms(2)
    by (simp add: frame_def handle_event_def BUTTON_LEFT_def select_def prompt_clear_def
        mouse_paint_def Rect_def)
qed

theorem clear_via_dialog_witness:
  "reachable app_init \<and> ok_answers \<lparr>file_answers = [], color_answers = [], ok_answers = [True]\<rparr> = True # [] \<and>
   frame \<lparr>file_answers = [], color_answers = [], ok_answers = [True]\<rparr>
     \<lparr>events = [MOUSEBUTTONDOWN BUTTON_LEFT (860, 5)], mouse_left = False, mouse_pos = (860, 5)\<rparr> app_init =
   Inr (\<lparr>file_answers = [], color_answers = [], ok_answers = []\<rparr>,
        app_init\<lparr>canvas := update (clear (canvas app_init))\<rparr>)"
proof -
  have a: "ok_answers \<lparr>file_answers = [], color_answers = [], ok_answers = [True]\<rparr> = True # []" by simp
  show ?thesis using clear_via_dialog [OF reachable.init a] reachable.init a by simp
qed


end
